theory Spec2Isabelle
  imports Complex_Main "HOL-Library.Sublist"
begin

section \<open>JavaScript values\<close>

text \<open>
  The nodes are written against \<^verbatim>\<open>any\<close>-typed JSON bodies, so the model keeps the dynamic
  values of the language.  A number is a double: NaN, an infinity, or the rational that a
  finite double denotes (\<open>to_double\<close> below rounds a rational to the nearest double, ties
  to even; negative zero is not kept apart from zero).  A string is a list of bytes
  (UTF-8).
\<close>

datatype number = NaN | PosInf | NegInf | Fin rat

datatype jsval =
    Undefined
  | Null
  | Bool bool
  | Num number
  | Str string
  | Arr "jsval list"
  | Obj "(string \<times> jsval) list"

text \<open>
  What a rejected promise or a \<^verbatim>\<open>throw\<close> carries.  \<^verbatim>\<open>NodeOperationError\<close> is the typed
  operational error of the host (message, optional item index); \<^verbatim>\<open>TypeError\<close> and
  \<^verbatim>\<open>SyntaxError\<close> are the runtime's own; \<^verbatim>\<open>Rejected\<close> is whatever the network helper
  rejects with.
\<close>

datatype error =
    NodeOperationError string "nat option"
  | TypeError
  | SyntaxError
  | Rejected string

definition bindE :: "error + 'a \<Rightarrow> ('a \<Rightarrow> error + 'b) \<Rightarrow> error + 'b" where
  "bindE m f = (case m of Inl e \<Rightarrow> Inl e | Inr x \<Rightarrow> f x)"

subsection \<open>Truthiness, property access\<close>

fun truthy :: "jsval \<Rightarrow> bool" where
  "truthy Undefined = False"
| "truthy Null = False"
| "truthy (Bool b) = b"
| "truthy (Num n) = (n \<noteq> NaN \<and> n \<noteq> Fin 0)"
| "truthy (Str s) = (s \<noteq> [])"
| "truthy (Arr xs) = True"
| "truthy (Obj fs) = True"

definition nullish :: "jsval \<Rightarrow> bool" where
  "nullish v = (v = Undefined \<or> v = Null)"

text \<open>\<^verbatim>\<open>a || b\<close>\<close>

definition js_or :: "jsval \<Rightarrow> jsval \<Rightarrow> jsval" where
  "js_or a b = (if truthy a then a else b)"

text \<open>
  \<^verbatim>\<open>v.k\<close> for the property names the nodes read (\<^verbatim>\<open>response\<close>, \<^verbatim>\<open>output\<close>, \<^verbatim>\<open>message\<close>,
  \<^verbatim>\<open>content\<close>, \<^verbatim>\<open>index\<close>, \<^verbatim>\<open>score\<close>, \<^verbatim>\<open>models\<close>, \<^verbatim>\<open>data\<close>, \<^verbatim>\<open>name\<close>, \<^verbatim>\<open>size\<close>,
  \<^verbatim>\<open>modified_at\<close>, \<^verbatim>\<open>id\<close>): none of them is defined on a built-in prototype, so a
  primitive or an array has it \<^verbatim>\<open>undefined\<close>; reading it from \<^verbatim>\<open>undefined\<close> or \<^verbatim>\<open>null\<close>
  throws.
\<close>

fun get_prop :: "jsval \<Rightarrow> string \<Rightarrow> error + jsval" where
  "get_prop Undefined k = Inl TypeError"
| "get_prop Null k = Inl TypeError"
| "get_prop (Obj fs) k = (case map_of fs k of None \<Rightarrow> Inr Undefined | Some v \<Rightarrow> Inr v)"
| "get_prop v k = Inr Undefined"

text \<open>\<^verbatim>\<open>v?.k\<close>\<close>

definition opt_prop :: "jsval \<Rightarrow> string \<Rightarrow> jsval" where
  "opt_prop v k = (case get_prop v k of Inl e \<Rightarrow> Undefined | Inr x \<Rightarrow> x)"

subsection \<open>Strings\<close>

definition is_space :: "char \<Rightarrow> bool" where
  "is_space c = (c \<in> set [CHR 0x09, CHR 0x0A, CHR 0x0B, CHR 0x0C, CHR 0x0D, CHR 0x20])"

text \<open>The white space and line terminators of the language outside ASCII, as UTF-8:
  U+00A0, U+1680, U+2000 to U+200A, U+2028, U+2029, U+202F, U+205F, U+3000, U+FEFF.\<close>

definition wide_spaces :: "string list" where
  "wide_spaces =
     [[CHR 0xC2, CHR 0xA0], [CHR 0xE1, CHR 0x9A, CHR 0x80],
      [CHR 0xE2, CHR 0x80, CHR 0x80], [CHR 0xE2, CHR 0x80, CHR 0x81], [CHR 0xE2, CHR 0x80, CHR 0x82],
      [CHR 0xE2, CHR 0x80, CHR 0x83], [CHR 0xE2, CHR 0x80, CHR 0x84], [CHR 0xE2, CHR 0x80, CHR 0x85],
      [CHR 0xE2, CHR 0x80, CHR 0x86], [CHR 0xE2, CHR 0x80, CHR 0x87], [CHR 0xE2, CHR 0x80, CHR 0x88],
      [CHR 0xE2, CHR 0x80, CHR 0x89], [CHR 0xE2, CHR 0x80, CHR 0x8A], [CHR 0xE2, CHR 0x80, CHR 0xA8],
      [CHR 0xE2, CHR 0x80, CHR 0xA9], [CHR 0xE2, CHR 0x80, CHR 0xAF], [CHR 0xE2, CHR 0x81, CHR 0x9F],
      [CHR 0xE3, CHR 0x80, CHR 0x80], [CHR 0xEF, CHR 0xBB, CHR 0xBF]]"

text \<open>The number of bytes of the white-space character at the head of \<open>s\<close>, 0 when
  there is none.\<close>

definition space_len :: "string list \<Rightarrow> string \<Rightarrow> nat" where
  "space_len ws s =
     (case s of
        [] \<Rightarrow> 0
      | c # cs \<Rightarrow>
          if is_space c then 1
          else (case find (\<lambda>w. prefix w s) ws of None \<Rightarrow> 0 | Some w \<Rightarrow> length w))"

function strip_spaces :: "string list \<Rightarrow> string \<Rightarrow> string" where
  "strip_spaces ws s = (if space_len ws s = 0 then s else strip_spaces ws (drop (space_len ws s) s))"
  by pat_completeness auto
termination
  by (relation "measure (\<lambda>p. length (snd p))") (auto simp: space_len_def split: list.splits)

declare strip_spaces.simps [simp del]

text \<open>\<^verbatim>\<open>String.prototype.trim\<close>: white space goes from both ends.\<close>

definition js_trim :: "string \<Rightarrow> string" where
  "js_trim s = rev (strip_spaces (map rev wide_spaces) (rev (strip_spaces wide_spaces s)))"

definition lower_char :: "char \<Rightarrow> char" where
  "lower_char c =
     (case map_of (zip ''ABCDEFGHIJKLMNOPQRSTUVWXYZ'' ''abcdefghijklmnopqrstuvwxyz'') c of
        None \<Rightarrow> c
      | Some l \<Rightarrow> l)"

text \<open>
  The two characters outside ASCII whose lower case has an ASCII letter in it: the Kelvin
  sign U+212A lowers to \<^verbatim>\<open>k\<close>, the dotted capital I U+0130 to \<^verbatim>\<open>i\<close> and the combining dot
  U+0307.
\<close>

fun special_lower :: "string \<Rightarrow> string" where
  "special_lower [] = []"
| "special_lower (c # cs) =
     (if c = CHR 0xE2 \<and> take 2 cs = [CHR 0x84, CHR 0xAA] then CHR ''k'' # special_lower (drop 2 cs)
      else if c = CHR 0xC4 \<and> take 1 cs = [CHR 0xB0]
        then CHR ''i'' # CHR 0xCC # CHR 0x87 # special_lower (drop 1 cs)
      else c # special_lower cs)"

text \<open>
  \<^verbatim>\<open>String.prototype.toLowerCase\<close>: the letters A to Z and the two characters above.  Every
  other letter outside ASCII lowers to characters outside ASCII; its bytes stay as they are,
  and the nodes look for ASCII text only in what they have lowered.
\<close>

definition toLowerCase :: "string \<Rightarrow> string" where
  "toLowerCase s = special_lower (map lower_char s)"

text \<open>\<^verbatim>\<open>s.includes(t)\<close>\<close>

fun js_includes :: "string \<Rightarrow> string \<Rightarrow> bool" where
  "js_includes [] t = (t = [])"
| "js_includes (c # cs) t = (prefix t (c # cs) \<or> js_includes cs t)"

text \<open>\<^verbatim>\<open>s.replace(/\/+$/, '')\<close>: every slash at the end of the string goes.\<close>

definition strip_trailing_slashes :: "string \<Rightarrow> string" where
  "strip_trailing_slashes s = rev (dropWhile (\<lambda>c. c = CHR ''/'') (rev s))"

text \<open>
  \<^verbatim>\<open>text.match(/\[[\s\S]*\]/)\<close>: the match starts at the first opening bracket and, the star
  being greedy over every character, runs to the last closing bracket of the text; there is
  no match when no closing bracket follows the first opening one.  \<open>None\<close> is \<^verbatim>\<open>null\<close>,
  \<open>Some m\<close> is \<^verbatim>\<open>jsonMatch[0]\<close>.
\<close>

definition match_array :: "string \<Rightarrow> string option" where
  "match_array text =
     (let r = dropWhile (\<lambda>c. c \<noteq> CHR ''['') text;
          m = rev (dropWhile (\<lambda>c. c \<noteq> CHR '']'') (rev r))
      in if m = [] then None else Some m)"

subsection \<open>Numbers\<close>

text \<open>
  Rounding to a double.  \<open>bitlen n\<close> is the number of binary digits of \<open>n\<close>,
  \<open>ilog2 a\<close> the exponent of the power of two at or below a positive \<open>a\<close>; a double
  has 53 significant bits above the exponent \<open>-1022\<close> and is a multiple of
  \<open>2^-1074\<close> below; from \<open>2^1024\<close> on the result is an infinity.
\<close>

function bitlen :: "int \<Rightarrow> int" where
  "bitlen n = (if n \<le> 0 then 0 else 1 + bitlen (n div 2))"
  by pat_completeness auto
termination
  by (relation "measure nat") auto

declare bitlen.simps [simp del]

definition pow2 :: "int \<Rightarrow> rat" where
  "pow2 k = (if 0 \<le> k then 2 ^ nat k else 1 / 2 ^ nat (- k))"

definition ilog2 :: "rat \<Rightarrow> int" where
  "ilog2 a =
     (if 1 \<le> a then bitlen \<lfloor>a\<rfloor> - 1
      else - bitlen (\<lceil>1 / a\<rceil> - 1))"

definition round_half_even :: "rat \<Rightarrow> int" where
  "round_half_even x =
     (let f = \<lfloor>x\<rfloor>; r = x - of_int f
      in if r < 1 / 2 then f else if 1 / 2 < r then f + 1 else if even f then f else f + 1)"

definition to_double :: "rat \<Rightarrow> number" where
  "to_double q =
     (if q = 0 then Fin 0
      else
        (let a = \<bar>q\<bar>;
             e = max (ilog2 a) (- 1022);
             u = pow2 (e - 52);
             v = of_int (round_half_even (a / u)) * u
         in if pow2 1024 \<le> v then (if q < 0 then NegInf else PosInf)
            else Fin (if q < 0 then - v else v)))"

definition is_digit :: "char \<Rightarrow> bool" where
  "is_digit c = (c \<in> set ''0123456789'')"

definition digit_val :: "char \<Rightarrow> nat" where
  "digit_val c =
     (case map_of (zip ''0123456789abcdefABCDEF''
                       [0, 1, 2, 3, 4, 5, 6, 7, 8, 9, 10, 11, 12, 13, 14, 15, 10, 11, 12, 13, 14, 15]) c of
        None \<Rightarrow> 0
      | Some n \<Rightarrow> n)"

definition digits_val :: "nat \<Rightarrow> string \<Rightarrow> nat" where
  "digits_val base ds = foldl (\<lambda>a c. base * a + digit_val c) 0 ds"

text \<open>The exponent part of a decimal literal, when there is one: its value and what follows.\<close>

definition opt_exponent :: "string \<Rightarrow> (int \<times> string) option" where
  "opt_exponent s =
     (case s of
        [] \<Rightarrow> Some (0, [])
      | c # r \<Rightarrow>
          if c = CHR ''e'' \<or> c = CHR ''E'' then
            (let (eneg, r1) =
               (case r of
                  [] \<Rightarrow> (False, r)
                | x # r' \<Rightarrow> if x = CHR ''-'' then (True, r') else if x = CHR ''+'' then (False, r')
                           else (False, r));
                 d = takeWhile is_digit r1
             in if d = [] then None
                else Some (if eneg then - int (digits_val 10 d) else int (digits_val 10 d),
                           dropWhile is_digit r1))
          else Some (0, c # r))"

definition decimal_value :: "string \<Rightarrow> string \<Rightarrow> int \<Rightarrow> rat" where
  "decimal_value ip fp e =
     (of_nat (digits_val 10 ip) + of_nat (digits_val 10 fp) / 10 ^ length fp)
       * (if 0 \<le> e then 10 ^ nat e else 1 / 10 ^ nat (- e))"

text \<open>
  The number grammar of JSON, on the whole of \<open>s\<close>: an optional minus, an integer part
  without a leading zero, an optional fraction with at least one digit, an optional
  exponent.  The result is the exact value of the literal; the lexer below rounds it to the
  double that \<^verbatim>\<open>JSON.parse\<close> gives.
\<close>

definition json_number :: "string \<Rightarrow> rat option" where
  "json_number s =
     (let (neg, s1) = (case s of [] \<Rightarrow> (False, s)
                       | c # r \<Rightarrow> if c = CHR ''-'' then (True, r) else (False, s));
          ip = takeWhile is_digit s1;
          s2 = dropWhile is_digit s1
      in if ip = [] \<or> (1 < length ip \<and> hd ip = CHR ''0'') then None
         else
           (case (case s2 of
                    [] \<Rightarrow> Some ([], s2)
                  | c # r \<Rightarrow>
                      if c = CHR ''.'' then
                        (if takeWhile is_digit r = [] then None
                         else Some (takeWhile is_digit r, dropWhile is_digit r))
                      else Some ([], s2)) of
              None \<Rightarrow> None
            | Some (fp, s3) \<Rightarrow>
                (case opt_exponent s3 of
                   None \<Rightarrow> None
                 | Some (e, s4) \<Rightarrow>
                     if s4 \<noteq> [] then None
                     else Some ((if neg then - 1 else 1) * decimal_value ip fp e))))"

text \<open>
  \<^verbatim>\<open>StringToNumber\<close> of the language: white space around, the empty string is 0, binary,
  octal and hexadecimal integers, \<^verbatim>\<open>Infinity\<close>, signed decimal literals (\<^verbatim>\<open>1.\<close> and \<^verbatim>\<open>.5\<close>
  allowed); anything else is NaN.
\<close>

definition nondecimal :: "string \<Rightarrow> nat option" where
  "nondecimal t =
     (case t of
        z # x # ds \<Rightarrow>
          if z = CHR ''0'' \<and> ds \<noteq> [] then
            (if (x = CHR ''x'' \<or> x = CHR ''X'') \<and> (\<forall>d \<in> set ds. d \<in> set ''0123456789abcdefABCDEF'')
               then Some (digits_val 16 ds)
             else if (x = CHR ''o'' \<or> x = CHR ''O'') \<and> (\<forall>d \<in> set ds. d \<in> set ''01234567'')
               then Some (digits_val 8 ds)
             else if (x = CHR ''b'' \<or> x = CHR ''B'') \<and> (\<forall>d \<in> set ds. d \<in> set ''01'')
               then Some (digits_val 2 ds)
             else None)
          else None
      | _ \<Rightarrow> None)"

definition str_decimal :: "string \<Rightarrow> rat option" where
  "str_decimal u =
     (let ip = takeWhile is_digit u;
          s2 = dropWhile is_digit u;
          (fp, s3) = (case s2 of
                        [] \<Rightarrow> ([], s2)
                      | c # r \<Rightarrow> if c = CHR ''.'' then (takeWhile is_digit r, dropWhile is_digit r)
                                 else ([], s2))
      in if ip = [] \<and> fp = [] then None
         else (case opt_exponent s3 of
                 None \<Rightarrow> None
               | Some (e, s4) \<Rightarrow> if s4 \<noteq> [] then None else Some (decimal_value ip fp e)))"

definition StringToNumber :: "string \<Rightarrow> number" where
  "StringToNumber s =
     (let t = js_trim s
      in if t = [] then Fin 0
         else
           (case nondecimal t of
              Some n \<Rightarrow> to_double (of_nat n)
            | None \<Rightarrow>
                (let (neg, u) =
                   (case t of
                      [] \<Rightarrow> (False, t)
                    | c # r \<Rightarrow> if c = CHR ''-'' then (True, r) else if c = CHR ''+'' then (False, r)
                               else (False, t))
                 in if u = ''Infinity'' then (if neg then NegInf else PosInf)
                    else (case str_decimal u of
                            None \<Rightarrow> NaN
                          | Some q \<Rightarrow> to_double (if neg then - q else q)))))"

text \<open>
  \<^verbatim>\<open>ToNumber\<close>.  An array goes through its \<^verbatim>\<open>toString\<close>, the elements joined by commas:
  the empty array and \<^verbatim>\<open>[null]\<close> give the empty string, a one-element array gives the
  text of its element (a number prints to a literal that reads back as itself), two elements
  or more give a text with a comma, which is no number.  An object prints as
  \<^verbatim>\<open>[object Object]\<close>.
\<close>

fun ToNumber :: "jsval \<Rightarrow> number" where
  "ToNumber Undefined = NaN"
| "ToNumber Null = Fin 0"
| "ToNumber (Bool b) = Fin (if b then 1 else 0)"
| "ToNumber (Num n) = n"
| "ToNumber (Str s) = StringToNumber s"
| "ToNumber (Obj fs) = NaN"
| "ToNumber (Arr []) = Fin 0"
| "ToNumber (Arr [Undefined]) = Fin 0"
| "ToNumber (Arr [Null]) = Fin 0"
| "ToNumber (Arr [Bool b]) = NaN"
| "ToNumber (Arr [Num n]) = n"
| "ToNumber (Arr [Str s]) = StringToNumber s"
| "ToNumber (Arr [Obj fs]) = NaN"
| "ToNumber (Arr [Arr ys]) = ToNumber (Arr ys)"
| "ToNumber (Arr (x # y # zs)) = NaN"

text \<open>\<^verbatim>\<open>a - b\<close> on numbers: the exact difference, rounded.\<close>

fun num_sub :: "number \<Rightarrow> number \<Rightarrow> number" where
  "num_sub (Fin a) (Fin b) = to_double (a - b)"
| "num_sub NaN b = NaN"
| "num_sub a NaN = NaN"
| "num_sub PosInf PosInf = NaN"
| "num_sub NegInf NegInf = NaN"
| "num_sub PosInf b = PosInf"
| "num_sub NegInf b = NegInf"
| "num_sub (Fin a) PosInf = NegInf"
| "num_sub (Fin a) NegInf = PosInf"

text \<open>\<^verbatim>\<open>Math.min(topN, xs.length)\<close> is \<open>min\<close> on integers; \<^verbatim>\<open>xs.slice(0, e)\<close> for an integer
  \<open>e\<close>: a negative end counts from the end of the array.\<close>

definition js_slice0 :: "int \<Rightarrow> 'a list \<Rightarrow> 'a list" where
  "js_slice0 e xs =
     (let len = int (length xs);
          final = (if e < 0 then max (len + e) 0 else min e len)
      in take (nat final) xs)"

subsection \<open>\<^verbatim>\<open>JSON.parse\<close>\<close>

text \<open>
  The built-in parser, modelled after the JSON grammar: a lexer, then a parser over the
  tokens that keeps the open arrays and objects on a stack.  A repeated key keeps its first
  position and its last value.
\<close>

datatype tok = TLBracket | TRBracket | TLBrace | TRBrace | TComma | TColon | TLit jsval

definition is_json_ws :: "char \<Rightarrow> bool" where
  "is_json_ws c = (c \<in> set [CHR 0x20, CHR 0x09, CHR 0x0A, CHR 0x0D])"

definition is_numchar :: "char \<Rightarrow> bool" where
  "is_numchar c = (is_digit c \<or> c \<in> set ''+-.eE'')"

definition unescape :: "char \<Rightarrow> char option" where
  "unescape c =
     map_of [(CHR 0x22, CHR 0x22), (CHR 0x5C, CHR 0x5C), (CHR ''/'', CHR ''/''),
             (CHR ''b'', CHR 0x08), (CHR ''f'', CHR 0x0C), (CHR ''n'', CHR 0x0A),
             (CHR ''r'', CHR 0x0D), (CHR ''t'', CHR 0x09)] c"

definition hex4 :: "string \<Rightarrow> nat option" where
  "hex4 ds =
     (if length ds = 4 \<and> (\<forall>d \<in> set ds. d \<in> set ''0123456789abcdefABCDEF'')
      then Some (digits_val 16 ds) else None)"

text \<open>The UTF-8 bytes of a code point; a lone surrogate is written like any other
  three-byte code point.\<close>

definition utf8 :: "nat \<Rightarrow> string" where
  "utf8 n =
     (if n < 128 then [char_of n]
      else if n < 2048 then [char_of (192 + n div 64), char_of (128 + n mod 64)]
      else if n < 65536 then
        [char_of (224 + n div 4096), char_of (128 + (n div 64) mod 64), char_of (128 + n mod 64)]
      else
        [char_of (240 + n div 262144), char_of (128 + (n div 4096) mod 64),
         char_of (128 + (n div 64) mod 64), char_of (128 + n mod 64)])"

text \<open>
  The inside of a string literal, after the opening quote: the text up to the closing
  quote, escapes decoded, and what follows the closing quote.  A raw control character
  is refused.
\<close>

fun lex_string :: "string \<Rightarrow> (string \<times> string) option" where
  "lex_string [] = None"
| "lex_string (c # cs) =
     (if c = CHR 0x22 then Some ([], cs)
      else if c = CHR 0x5C then
        (case cs of
           [] \<Rightarrow> None
         | e # cs' \<Rightarrow>
             if e = CHR ''u'' then
               (case hex4 (take 4 cs') of
                  None \<Rightarrow> None
                | Some hi \<Rightarrow>
                    (case (if 55296 \<le> hi \<and> hi < 56320 \<and> take 2 (drop 4 cs') = [CHR 0x5C, CHR ''u'']
                           then hex4 (take 4 (drop 6 cs')) else None) of
                       Some lo \<Rightarrow>
                         if 56320 \<le> lo \<and> lo < 57344 then
                           map_option (\<lambda>(s, r). (utf8 (65536 + (hi - 55296) * 1024 + (lo - 56320)) @ s, r))
                             (lex_string (drop 10 cs'))
                         else map_option (\<lambda>(s, r). (utf8 hi @ s, r)) (lex_string (drop 4 cs'))
                     | None \<Rightarrow> map_option (\<lambda>(s, r). (utf8 hi @ s, r)) (lex_string (drop 4 cs'))))
             else
               (case unescape e of
                  None \<Rightarrow> None
                | Some x \<Rightarrow> map_option (\<lambda>(s, r). (x # s, r)) (lex_string cs')))
      else if (of_char c :: nat) < 32 then None
      else map_option (\<lambda>(s, r). (c # s, r)) (lex_string cs))"

lemma lex_string_shorter: "lex_string cs = Some (s, rest) \<Longrightarrow> length rest < length cs"
proof (induction cs arbitrary: s rest rule: lex_string.induct)
  case 1
  then show ?case by simp
next
  case (2 c cs)
  show ?case
    using "2.prems" "2.IH"
    by (fastforce split: if_splits list.splits option.splits)
qed

function lex :: "string \<Rightarrow> tok list option" where
  "lex [] = Some []"
| "lex (c # cs) =
     (if is_json_ws c then lex cs
      else if c = CHR ''['' then map_option (Cons TLBracket) (lex cs)
      else if c = CHR '']'' then map_option (Cons TRBracket) (lex cs)
      else if c = CHR ''{'' then map_option (Cons TLBrace) (lex cs)
      else if c = CHR ''}'' then map_option (Cons TRBrace) (lex cs)
      else if c = CHR '','' then map_option (Cons TComma) (lex cs)
      else if c = CHR '':'' then map_option (Cons TColon) (lex cs)
      else if c = CHR 0x22 then
        (case lex_string cs of
           None \<Rightarrow> None
         | Some (s, rest) \<Rightarrow> map_option (Cons (TLit (Str s))) (lex rest))
      else if c = CHR ''-'' \<or> is_digit c then
        (case json_number (c # takeWhile is_numchar cs) of
           None \<Rightarrow> None
         | Some q \<Rightarrow> map_option (Cons (TLit (Num (to_double q)))) (lex (dropWhile is_numchar cs)))
      else if c # take 3 cs = ''true'' then map_option (Cons (TLit (Bool True))) (lex (drop 3 cs))
      else if c # take 4 cs = ''false'' then map_option (Cons (TLit (Bool False))) (lex (drop 4 cs))
      else if c # take 3 cs = ''null'' then map_option (Cons (TLit Null)) (lex (drop 3 cs))
      else None)"
  by pat_completeness auto
termination
proof (relation "measure length")
  fix c cs x2 x y
  assume "lex_string cs = Some x2" and "(x, y) = x2"
  then have "lex_string cs = Some (x, y)" by simp
  from lex_string_shorter [OF this] show "(y, c # cs) \<in> measure length" by simp
qed (auto simp: le_imp_less_Suc length_dropWhile_le)

fun obj_put :: "string \<Rightarrow> jsval \<Rightarrow> (string \<times> jsval) list \<Rightarrow> (string \<times> jsval) list" where
  "obj_put k v [] = [(k, v)]"
| "obj_put k v ((k', v') # fs) = (if k = k' then (k, v) # fs else (k', v') # obj_put k v fs)"

datatype frame =
    FArr "jsval list"
  | FObj "(string \<times> jsval) list"
  | FKey "(string \<times> jsval) list" string

datatype pmode = PValue | PValueOrEnd | PKeyOrEnd | PKey | PColon string | PCommaOrEnd | PDone jsval

text \<open>A finished value goes to the container that is open, or is the result.\<close>

fun deliver :: "jsval \<Rightarrow> frame list \<Rightarrow> (frame list \<times> pmode) option" where
  "deliver v [] = Some ([], PDone v)"
| "deliver v (FArr acc # st) = Some (FArr (acc @ [v]) # st, PCommaOrEnd)"
| "deliver v (FKey acc k # st) = Some (FObj (obj_put k v acc) # st, PCommaOrEnd)"
| "deliver v (FObj acc # st) = None"

fun begin_value :: "frame list \<Rightarrow> tok \<Rightarrow> (frame list \<times> pmode) option" where
  "begin_value st (TLit v) = deliver v st"
| "begin_value st TLBracket = Some (FArr [] # st, PValueOrEnd)"
| "begin_value st TLBrace = Some (FObj [] # st, PKeyOrEnd)"
| "begin_value st t = None"

fun close_array :: "frame list \<Rightarrow> (frame list \<times> pmode) option" where
  "close_array (FArr acc # st) = deliver (Arr acc) st"
| "close_array st = None"

fun close_object :: "frame list \<Rightarrow> (frame list \<times> pmode) option" where
  "close_object (FObj acc # st) = deliver (Obj acc) st"
| "close_object st = None"

fun pstep :: "frame list \<times> pmode \<Rightarrow> tok \<Rightarrow> (frame list \<times> pmode) option" where
  "pstep (st, PValue) t = begin_value st t"
| "pstep (st, PValueOrEnd) t = (if t = TRBracket then close_array st else begin_value st t)"
| "pstep (st, PKeyOrEnd) t =
     (case t of
        TRBrace \<Rightarrow> close_object st
      | TLit (Str k) \<Rightarrow> Some (st, PColon k)
      | _ \<Rightarrow> None)"
| "pstep (st, PKey) t = (case t of TLit (Str k) \<Rightarrow> Some (st, PColon k) | _ \<Rightarrow> None)"
| "pstep (st, PColon k) t =
     (case (t, st) of
        (TColon, FObj acc # st') \<Rightarrow> Some (FKey acc k # st', PValue)
      | _ \<Rightarrow> None)"
| "pstep (st, PCommaOrEnd) t =
     (case (t, st) of
        (TComma, FArr acc # st') \<Rightarrow> Some (st, PValue)
      | (TComma, FObj acc # st') \<Rightarrow> Some (st, PKey)
      | (TRBracket, _) \<Rightarrow> close_array st
      | (TRBrace, _) \<Rightarrow> close_object st
      | _ \<Rightarrow> None)"
| "pstep (st, PDone v) t = None"

fun prun :: "frame list \<times> pmode \<Rightarrow> tok list \<Rightarrow> (frame list \<times> pmode) option" where
  "prun s [] = Some s"
| "prun s (t # ts) = (case pstep s t of None \<Rightarrow> None | Some s' \<Rightarrow> prun s' ts)"

definition JSON_parse :: "string \<Rightarrow> jsval option" where
  "JSON_parse s =
     (case lex s of
        None \<Rightarrow> None
      | Some ts \<Rightarrow>
          (case prun ([], PValue) ts of
             Some ([], PDone v) \<Rightarrow> Some v
           | _ \<Rightarrow> None))"

subsection \<open>Arrays\<close>

text \<open>\<^verbatim>\<open>documents[n]\<close> for a number \<open>n\<close>: the element when \<open>n\<close> is an integer inside the
  array, \<^verbatim>\<open>undefined\<close> (here \<open>None\<close>) otherwise.\<close>

definition js_index :: "'a list \<Rightarrow> number \<Rightarrow> 'a option" where
  "js_index xs n =
     (case n of
        Fin r \<Rightarrow> if r = of_int \<lfloor>r\<rfloor> \<and> 0 \<le> r \<and> \<lfloor>r\<rfloor> < int (length xs)
                 then Some (xs ! nat \<lfloor>r\<rfloor>) else None
      | _ \<Rightarrow> None)"

text \<open>
  \<^verbatim>\<open>Array.prototype.sort\<close> with a comparator.  The sort of the language is stable
  (ECMAScript 2019); for a consistent comparator every stable sort gives the same array,
  here by insertion.  A comparator result that is NaN counts as 0.
\<close>

fun num_le0 :: "number \<Rightarrow> bool" where
  "num_le0 (Fin r) = (r \<le> 0)"
| "num_le0 NaN = True"
| "num_le0 NegInf = True"
| "num_le0 PosInf = False"

fun js_insert :: "('a \<Rightarrow> 'a \<Rightarrow> number) \<Rightarrow> 'a \<Rightarrow> 'a list \<Rightarrow> 'a list" where
  "js_insert cmp x [] = [x]"
| "js_insert cmp x (y # ys) = (if num_le0 (cmp x y) then x # y # ys else y # js_insert cmp x ys)"

definition js_sort :: "('a \<Rightarrow> 'a \<Rightarrow> number) \<Rightarrow> 'a list \<Rightarrow> 'a list" where
  "js_sort cmp xs = foldr (js_insert cmp) xs []"

text \<open>\<^verbatim>\<open>Promise.all\<close>: every result when all fulfil, a rejection when one rejects (the
  first in array order here; which one the runtime reports depends on timing).\<close>

fun Promise_all :: "(error + 'a) list \<Rightarrow> error + 'a list" where
  "Promise_all [] = Inr []"
| "Promise_all (Inl e # ps) = Inl e"
| "Promise_all (Inr x # ps) = (case Promise_all ps of Inl e \<Rightarrow> Inl e | Inr xs \<Rightarrow> Inr (x # xs))"

definition digit_char :: "nat \<Rightarrow> char" where
  "digit_char d = ''0123456789'' ! d"

fun show_nat :: "nat \<Rightarrow> string" where
  "show_nat n = (if n < 10 then [digit_char n] else show_nat (n div 10) @ [digit_char (n mod 10)])"

declare show_nat.simps [simp del]

fun join :: "string \<Rightarrow> string list \<Rightarrow> string" where
  "join sep [] = []"
| "join sep [x] = x"
| "join sep (x # y # zs) = x @ sep @ join sep (y # zs)"

section \<open>The host and the store\<close>

text \<open>
  Documents are objects handed over by the caller and mutated in place, so they live in a
  store and the arrays hold references.  A document has its text and its \<^verbatim>\<open>metadata\<close>
  property: \<open>None\<close> when the property is absent (or falsy), \<open>Some m\<close> when it is the
  object at \<open>m\<close>, itself a table from keys to values.  Any further property of a document
  is the extension of the record.  References below \<open>limit\<close> are the objects that exist.
\<close>

type_synonym ref = nat

record doc =
  pageContent :: string
  metadata :: "ref option"

record 'a store =
  docs :: "ref \<Rightarrow> 'a doc_scheme"
  metas :: "ref \<Rightarrow> (string \<rightharpoonup> jsval)"
  limit :: ref

record credentials =
  baseUrl :: "string option"
  apiKey :: "string option"

datatype payload =
    NoBody
  | Chat string "(string \<times> string) list" rat nat bool
  | Generate string string bool

text \<open>\<open>Chat model messages temperature num_predict stream\<close> and \<open>Generate model prompt stream\<close>
  are the objects the nodes serialise with \<^verbatim>\<open>JSON.stringify\<close>.\<close>

record http_request =
  req_method :: string
  url :: string
  headers :: "(string \<times> string) list"
  body :: payload

text \<open>What \<^verbatim>\<open>fetch\<close> gives: a rejection, or a response with \<^verbatim>\<open>ok\<close>, \<^verbatim>\<open>status\<close>,
  \<^verbatim>\<open>statusText\<close> and the value \<^verbatim>\<open>json()\<close> resolves to (\<open>None\<close>: the body is no JSON).\<close>

datatype fetch_outcome =
    Fetch_failed string
  | Fetch_response bool nat string "jsval option"

text \<open>
  The host functions and the runtime the nodes call: credentials, node parameters, the
  item index of \<^verbatim>\<open>supplyData\<close>, the HTTP helper, \<^verbatim>\<open>fetch\<close>, and the three built-ins whose
  output depends on locale and number formatting (\<^verbatim>\<open>toFixed(1)\<close>,
  \<^verbatim>\<open>new Date(v).toLocaleString()\<close>, the string a template literal makes of a value).
  The parameter \<open>topN\<close> is a whole number of either sign; the editor does not bound it.
\<close>

record host =
  getCredentials :: "string \<Rightarrow> credentials"
  model :: string
  topN :: int
  itemIndex :: nat
  httpRequest :: "http_request \<Rightarrow> error + jsval"
  fetch :: "http_request \<Rightarrow> fetch_outcome"
  toFixed1 :: "number \<Rightarrow> string"
  toLocaleString :: "jsval \<Rightarrow> string"
  ToString :: "jsval \<Rightarrow> string"

text \<open>\<^verbatim>\<open>s || d\<close> for an optional string: the default when \<open>s\<close> is undefined or empty.\<close>

definition str_or :: "string option \<Rightarrow> string \<Rightarrow> string" where
  "str_or s d = (case s of None \<Rightarrow> d | Some x \<Rightarrow> if x = [] then d else x)"

definition request_headers :: "credentials \<Rightarrow> (string \<times> string) list" where
  "request_headers c =
     (''Content-Type'', ''application/json'')
       # (if str_or (apiKey c) [] = [] then []
          else [(''Authorization'', ''Bearer '' @ str_or (apiKey c) [])])"

record rerank_result =
  index :: number
  relevanceScore :: jsval

section \<open>Classification variant: \<^verbatim>\<open>rerankQwen\<close>\<close>

text \<open>\<^verbatim>\<open>(credentials.baseUrl || 'http://localhost:11434').replace(/\/+$/, '')\<close>\<close>

definition rerank_baseUrl :: "credentials \<Rightarrow> string" where
  "rerank_baseUrl c = strip_trailing_slashes (str_or (baseUrl c) ''http://localhost:11434'')"

definition grader_prompt :: "string \<Rightarrow> string \<Rightarrow> string" where
  "grader_prompt query content =
     ''You are an expert relevance grader. For each document, determine whether it is relevant to the query. Respond with a simple ''
     @ [CHR 0x27] @ ''Yes'' @ [CHR 0x27] @ '' or '' @ [CHR 0x27] @ ''No'' @ [CHR 0x27] @ ''.''
     @ [CHR 0x0A, CHR 0x0A] @ '' Query: '' @ [CHR 0x22] @ query @ [CHR 0x22]
     @ [CHR 0x0A] @ ''Document: '' @ content"

text \<open>
  \<^verbatim>\<open>response?.message?.content?.trim()?.toLowerCase()\<close>: undefined when the reply, its
  message or the content is undefined or null; a content that is no string has no \<^verbatim>\<open>trim\<close>
  to call.
\<close>

definition answer_of :: "jsval \<Rightarrow> error + jsval" where
  "answer_of response =
     (case opt_prop (opt_prop response ''message'') ''content'' of
        Undefined \<Rightarrow> Inr Undefined
      | Null \<Rightarrow> Inr Undefined
      | Str c \<Rightarrow> Inr (Str (toLowerCase (js_trim c)))
      | _ \<Rightarrow> Inl TypeError)"

text \<open>\<^verbatim>\<open>answer?.includes('yes') ? 1 : 0\<close>\<close>

definition score_of :: "jsval \<Rightarrow> jsval" where
  "score_of answer =
     (case answer of
        Str a \<Rightarrow> if js_includes a ''yes'' then Num (Fin 1) else Num (Fin 0)
      | _ \<Rightarrow> Num (Fin 0))"

text \<open>The callback of \<^verbatim>\<open>documents.map\<close>: the request it issues and what its promise settles to.\<close>

definition rerankCall ::
  "host \<Rightarrow> 'a store \<Rightarrow> string \<Rightarrow> (string \<times> string) list \<Rightarrow> string \<Rightarrow> nat \<times> ref
     \<Rightarrow> http_request \<times> (error + rerank_result)" where
  "rerankCall h s u hs query p =
     (let req = \<lparr>req_method = ''POST'', url = u, headers = hs,
                 body = Chat (model h)
                          [(''user'', grader_prompt query (pageContent (docs s (snd p))))]
                          0 200 False\<rparr>
      in (req,
          bindE (httpRequest h req) (\<lambda>response.
          bindE (answer_of response) (\<lambda>answer.
          Inr \<lparr>index = Fin (of_nat (fst p)), relevanceScore = score_of answer\<rparr>))))"

text \<open>\<^verbatim>\<open>(a, b) => b.relevanceScore - a.relevanceScore\<close>\<close>

definition by_score_desc :: "rerank_result \<Rightarrow> rerank_result \<Rightarrow> number" where
  "by_score_desc a b = num_sub (ToNumber (relevanceScore b)) (ToNumber (relevanceScore a))"

text \<open>The result of \<^verbatim>\<open>rerankQwen\<close> and the requests it has issued (every callback runs up to
  its request before any reply is awaited).\<close>

definition rerankQwen ::
  "host \<Rightarrow> 'a store \<Rightarrow> ref list \<Rightarrow> string \<Rightarrow> (error + rerank_result list) \<times> http_request list" where
  "rerankQwen h s documents query =
     (let credentials = getCredentials h ''ollamaApi'';
          hs = request_headers credentials;
          u = rerank_baseUrl credentials @ ''/api/chat'';
          rerankCalls = map (rerankCall h s u hs query) (enumerate 0 documents)
      in (bindE (Promise_all (map snd rerankCalls)) (\<lambda>results.
            let sorted = js_sort by_score_desc results
            in Inr (js_slice0 (min (topN h) (int (length sorted))) sorted)),
          map fst rerankCalls))"

section \<open>List-ranking variant: \<^verbatim>\<open>rerank\<close>\<close>

definition ranking_prompt :: "string \<Rightarrow> string \<Rightarrow> string" where
  "ranking_prompt query passagesText =
     [CHR 0x0A] @ replicate 4 (CHR 0x09)
     @ ''You are a reranker model. Rank the following documents by relevance to the query.''
     @ [CHR 0x0A, CHR 0x0A] @ replicate 4 (CHR 0x09)
     @ ''Query: '' @ [CHR 0x22] @ query @ [CHR 0x22]
     @ [CHR 0x0A, CHR 0x0A] @ replicate 4 (CHR 0x09)
     @ ''Documents:''
     @ [CHR 0x0A] @ replicate 4 (CHR 0x09)
     @ passagesText
     @ [CHR 0x0A, CHR 0x0A] @ replicate 4 (CHR 0x09)
     @ ''Return a JSON array of objects: [{'' @ [CHR 0x22] @ ''index'' @ [CHR 0x22] @ '': number, ''
     @ [CHR 0x22] @ ''score'' @ [CHR 0x22] @ '': number}] with highest scores first.''
     @ [CHR 0x0A] @ replicate 3 (CHR 0x09)"

text \<open>\<^verbatim>\<open>response.response || response.output || response\<close>\<close>

definition reply_text :: "jsval \<Rightarrow> error + jsval" where
  "reply_text response =
     bindE (get_prop response ''response'') (\<lambda>r.
       if truthy r then Inr r
       else bindE (get_prop response ''output'') (\<lambda>out.
         if truthy out then Inr out else Inr response))"

text \<open>\<^verbatim>\<open>r => ({ index: r.index - 1, relevanceScore: r.score })\<close>\<close>

definition ranking_of :: "jsval \<Rightarrow> error + rerank_result" where
  "ranking_of r =
     bindE (get_prop r ''index'') (\<lambda>i.
     bindE (get_prop r ''score'') (\<lambda>sc.
     Inr \<lparr>index = num_sub (ToNumber i) (Fin 1), relevanceScore = sc\<rparr>))"

text \<open>\<^verbatim>\<open>rankings.map\<close>: the first callback that throws ends the map.\<close>

fun mapE :: "('a \<Rightarrow> error + 'b) \<Rightarrow> 'a list \<Rightarrow> error + 'b list" where
  "mapE f [] = Inr []"
| "mapE f (x # xs) =
     (case f x of
        Inl e \<Rightarrow> Inl e
      | Inr y \<Rightarrow> (case mapE f xs of Inl e \<Rightarrow> Inl e | Inr ys \<Rightarrow> Inr (y # ys)))"

text \<open>
  From the reply to the rankings.  \<^verbatim>\<open>text.match\<close> exists on a string only; the matched
  text starts with a bracket, so what \<^verbatim>\<open>JSON.parse\<close> makes of it is an array.
\<close>

definition parse_rankings :: "host \<Rightarrow> jsval \<Rightarrow> error + rerank_result list" where
  "parse_rankings h response =
     bindE (reply_text response) (\<lambda>text.
       case text of
         Str t \<Rightarrow>
           (case match_array t of
              None \<Rightarrow> Inl (NodeOperationError ''Failed to parse reranker output.'' (Some (itemIndex h)))
            | Some jsonMatch \<Rightarrow>
                (case JSON_parse jsonMatch of
                   None \<Rightarrow> Inl (NodeOperationError ''Invalid JSON in reranker response.''
                                  (Some (itemIndex h)))
                 | Some (Arr results) \<Rightarrow>
                     mapE ranking_of (js_slice0 (min (topN h) (int (length results))) results)
                 | Some _ \<Rightarrow> Inl TypeError))
       | _ \<Rightarrow> Inl TypeError)"

definition rerank ::
  "host \<Rightarrow> 'a store \<Rightarrow> ref list \<Rightarrow> string \<Rightarrow> (error + rerank_result list) \<times> http_request list" where
  "rerank h s documents query =
     (let credentials = getCredentials h ''rerankerOllamaApi'';
          hs = request_headers credentials;
          u = rerank_baseUrl credentials @ ''/api/generate'';
          passagesText =
            join [CHR 0x0A, CHR 0x0A]
              (map (\<lambda>(i, d). ''Document '' @ show_nat (i + 1) @ '': '' @ pageContent (docs s d))
                 (enumerate 0 documents));
          req = \<lparr>req_method = ''POST'', url = u, headers = hs,
                 body = Generate (model h) (ranking_prompt query passagesText) False\<rparr>
      in (bindE (httpRequest h req) (parse_rankings h), [req]))"

section \<open>\<^verbatim>\<open>compressDocuments\<close>\<close>

text \<open>
  One step of \<^verbatim>\<open>results.map\<close>: look the document up, give it a metadata object when it has
  none, write the score.  The lookup of a document that is not there throws on
  \<^verbatim>\<open>doc.metadata\<close>.
\<close>

definition ensure_metadata :: "'a store \<Rightarrow> ref \<Rightarrow> ref \<times> 'a store" where
  "ensure_metadata s d =
     (case metadata (docs s d) of
        Some m \<Rightarrow> (m, s)
      | None \<Rightarrow>
          (limit s,
           s\<lparr>docs := (docs s)(d := (docs s d)\<lparr>metadata := Some (limit s)\<rparr>),
             metas := (metas s)(limit s := Map.empty),
             limit := Suc (limit s)\<rparr>))"

definition set_score :: "'a store \<Rightarrow> ref \<Rightarrow> jsval \<Rightarrow> 'a store" where
  "set_score s m v = s\<lparr>metas := (metas s)(m := (metas s m)(''relevanceScore'' \<mapsto> v))\<rparr>"

text \<open>\<^verbatim>\<open>doc.metadata = doc.metadata || {}; doc.metadata.relevanceScore = v\<close>\<close>

definition attach :: "'a store \<Rightarrow> ref \<Rightarrow> jsval \<Rightarrow> 'a store" where
  "attach s d v = (let (m, s1) = ensure_metadata s d in set_score s1 m v)"

fun finalResults ::
  "ref list \<Rightarrow> rerank_result list \<Rightarrow> 'a store \<Rightarrow> (error + ref list) \<times> 'a store" where
  "finalResults documents [] s = (Inr [], s)"
| "finalResults documents (result # results) s =
     (case js_index documents (index result) of
        None \<Rightarrow> (Inl TypeError, s)
      | Some d \<Rightarrow>
          (case finalResults documents results (attach s d (relevanceScore result)) of
             (Inl e, s') \<Rightarrow> (Inl e, s')
           | (Inr ds, s') \<Rightarrow> (Inr (d # ds), s')))"

text \<open>
  The result, the store afterwards and the requests issued.  \<open>None\<close> is a document list
  that is \<^verbatim>\<open>undefined\<close> or \<^verbatim>\<open>null\<close>.  \<open>compressDocuments_Qwen\<close> is the classification
  node's function, \<open>compressDocuments\<close> the one of the two list-ranking nodes.
\<close>

definition compressDocuments_Qwen ::
  "host \<Rightarrow> 'a store \<Rightarrow> ref list option \<Rightarrow> string
     \<Rightarrow> (error + ref list) \<times> 'a store \<times> http_request list" where
  "compressDocuments_Qwen h s documents query =
     (case documents of
        None \<Rightarrow> (Inr [], s, [])
      | Some ds \<Rightarrow>
          if length ds = 0 then (Inr [], s, [])
          else
            (case rerankQwen h s ds query of
               (Inl e, reqs) \<Rightarrow> (Inl e, s, reqs)
             | (Inr results, reqs) \<Rightarrow>
                 (let (r, s') = finalResults ds results s in (r, s', reqs))))"

definition compressDocuments ::
  "host \<Rightarrow> 'a store \<Rightarrow> ref list option \<Rightarrow> string
     \<Rightarrow> (error + ref list) \<times> 'a store \<times> http_request list" where
  "compressDocuments h s documents query =
     (case documents of
        None \<Rightarrow> (Inr [], s, [])
      | Some ds \<Rightarrow>
          if length ds = 0 then (Inr [], s, [])
          else
            (case rerank h s ds query of
               (Inl e, reqs) \<Rightarrow> (Inl e, s, reqs)
             | (Inr results, reqs) \<Rightarrow>
                 (let (r, s') = finalResults ds results s in (r, s', reqs))))"

section \<open>The model listers: \<^verbatim>\<open>getModels\<close>\<close>

record INodePropertyOptions =
  option_name :: jsval
  option_value :: jsval
  option_description :: "string option"

text \<open>\<^verbatim>\<open>(credentials.baseUrl || '').replace(/\/+$/, '') || 'http://localhost:11434'\<close>, the
  base URL of the two listers that ask \<^verbatim>\<open>/api/tags\<close>.\<close>

definition tags_baseUrl :: "credentials \<Rightarrow> string" where
  "tags_baseUrl c =
     str_or (Some (strip_trailing_slashes (str_or (baseUrl c) []))) ''http://localhost:11434''"

text \<open>\<^verbatim>\<open>(credentials.baseUrl || '').replace(/\/+$/, '')\<close>, the base URL of the lister that
  asks \<^verbatim>\<open>/models\<close>.\<close>

definition models_baseUrl :: "credentials \<Rightarrow> string" where
  "models_baseUrl c = strip_trailing_slashes (str_or (baseUrl c) [])"

fun num_div :: "number \<Rightarrow> rat \<Rightarrow> number" where
  "num_div (Fin x) d = to_double (x / d)"
| "num_div n d = n"

fun isArray :: "jsval \<Rightarrow> bool" where
  "isArray (Arr xs) = True"
| "isArray v = False"

definition model_option :: "host \<Rightarrow> jsval \<Rightarrow> error + INodePropertyOptions" where
  "model_option h m =
     bindE (get_prop m ''size'') (\<lambda>size.
     bindE (get_prop m ''modified_at'') (\<lambda>modified_at.
     bindE (get_prop m ''name'') (\<lambda>n.
       let sizeGB = (if truthy size then toFixed1 h (num_div (ToNumber size) 1073741824) @ '' GB''
                     else ''Unknown size'');
           modified = (if truthy modified_at then toLocaleString h modified_at
                       else ''Unknown date'')
       in Inr \<lparr>option_name = Str (ToString h n @ '' ('' @ sizeGB @ '')''),
               option_value = n,
               option_description = Some (''Last updated: '' @ modified)\<rparr>)))"

text \<open>Steps 1 to 4 of the lister of both nodes of \<^verbatim>\<open>RerankerOllama.node.ts\<close>; the
  list-ranking node returns these options as they are.\<close>

definition getModels ::
  "host \<Rightarrow> (error + INodePropertyOptions list) \<times> http_request list" where
  "getModels h =
     (let credentials = getCredentials h ''ollamaApi'';
          b = tags_baseUrl credentials;
          req = \<lparr>req_method = ''GET'', url = b @ ''/api/tags'',
                 headers = request_headers credentials, body = NoBody\<rparr>
      in ((case fetch h req of
             Fetch_failed msg \<Rightarrow>
               Inl (NodeOperationError (''Network error connecting to Ollama at '' @ b @ '': '' @ msg) None)
           | Fetch_response ok status statusText json \<Rightarrow>
               if \<not> ok then
                 Inl (NodeOperationError
                        (''Failed to fetch Ollama models ('' @ show_nat status @ '' '' @ statusText
                           @ '') from '' @ b) None)
               else
                 (case json of
                    None \<Rightarrow> Inl SyntaxError
                  | Some data \<Rightarrow>
                      bindE (get_prop data ''models'') (\<lambda>models.
                        if \<not> truthy models \<or> \<not> isArray models then
                          Inl (NodeOperationError
                                 (''Unexpected response: missing '' @ [CHR 0x22] @ ''models''
                                    @ [CHR 0x22] @ '' array from Ollama API.'') None)
                        else (case models of
                                Arr ms \<Rightarrow> mapE (model_option h) ms
                              | _ \<Rightarrow> Inl TypeError)))),
          [req]))"

text \<open>The classification node keeps the options whose value contains a whitelisted name:
  \<^verbatim>\<open>option.value?.toLowerCase?.() || ''\<close>, then \<^verbatim>\<open>whitelist.some\<close>.\<close>

definition whitelisted :: "INodePropertyOptions \<Rightarrow> bool" where
  "whitelisted opt =
     (let v = (case option_value opt of Str x \<Rightarrow> toLowerCase x | _ \<Rightarrow> [])
      in list_ex (\<lambda>allowed. js_includes v allowed) [''qwen3-reranker''])"

definition getModels_Qwen ::
  "host \<Rightarrow> (error + INodePropertyOptions list) \<times> http_request list" where
  "getModels_Qwen h =
     (case getModels h of
        (Inl e, reqs) \<Rightarrow> (Inl e, reqs)
      | (Inr options, reqs) \<Rightarrow> (Inr (filter whitelisted options), reqs))"

text \<open>The lister of the third node (\<^verbatim>\<open>part_000\<close>): no \<^verbatim>\<open>try\<close> around \<^verbatim>\<open>fetch\<close>, and
  \<^verbatim>\<open>(result.data ?? []).map(...)\<close>.\<close>

definition getModels_models ::
  "host \<Rightarrow> (error + INodePropertyOptions list) \<times> http_request list" where
  "getModels_models h =
     (let credentials = getCredentials h ''ollamaApi'';
          b = models_baseUrl credentials;
          req = \<lparr>req_method = ''GET'', url = b @ ''/models'',
                 headers = request_headers credentials, body = NoBody\<rparr>
      in ((case fetch h req of
             Fetch_failed msg \<Rightarrow> Inl (Rejected msg)
           | Fetch_response ok status statusText json \<Rightarrow>
               if \<not> ok then
                 Inl (NodeOperationError
                        (''Failed to fetch models: '' @ show_nat status @ '' '' @ statusText)
                        (Some 0))
               else
                 (case json of
                    None \<Rightarrow> Inl SyntaxError
                  | Some result \<Rightarrow>
                      bindE (get_prop result ''data'') (\<lambda>d.
                        case (if nullish d then Arr [] else d) of
                          Arr ms \<Rightarrow>
                            mapE (\<lambda>m. bindE (get_prop m ''id'') (\<lambda>i.
                                    Inr \<lparr>option_name = i, option_value = i,
                                         option_description = None\<rparr>)) ms
                        | _ \<Rightarrow> Inl TypeError))),
          [req]))"

section \<open>Specification predicates and example inputs\<close>

text \<open>A result of the classification reranker carries the score 1 or the score 0.\<close>

definition binary_score :: "rerank_result \<Rightarrow> bool" where
  "binary_score r = (relevanceScore r = Num (Fin 1) \<or> relevanceScore r = Num (Fin 0))"

text \<open>The order the classification claims speak of: score 1 before score 0, and among equal
  scores the smaller input position first.\<close>

definition ranked_before :: "rerank_result \<Rightarrow> rerank_result \<Rightarrow> bool" where
  "ranked_before a b =
     (case (index a, index b) of
        (Fin x, Fin y) \<Rightarrow>
          (relevanceScore a = Num (Fin 1) \<and> relevanceScore b = Num (Fin 0))
          \<or> (relevanceScore a = relevanceScore b \<and> x < y)
      | _ \<Rightarrow> False)"

text \<open>The body of a chat reply and of a completion reply of the model server.\<close>

definition chat_reply :: "string \<Rightarrow> jsval" where
  "chat_reply c =
     Obj [(''model'', Str ''dengcao/Qwen3-Reranker-4B:Q5_K_M''),
          (''message'', Obj [(''role'', Str ''assistant''), (''content'', Str c)]),
          (''done'', Bool True)]"

definition generate_reply :: "string \<Rightarrow> jsval" where
  "generate_reply t =
     Obj [(''model'', Str ''dengcao/Qwen3-Reranker-8B:Q3_K_M''),
          (''response'', Str t),
          (''done'', Bool True)]"

text \<open>A grader that finds a document relevant when it mentions Beijing.\<close>

definition example_grader :: "http_request \<Rightarrow> error + jsval" where
  "example_grader req =
     (case body req of
        Chat m msgs t n st \<Rightarrow>
          if list_ex (\<lambda>msg. js_includes (snd msg) ''Document: Beijing'') msgs
          then Inr (chat_reply ''Yes, relevant.'')
          else Inr (chat_reply ''No.'')
      | _ \<Rightarrow> Inl (Rejected ''400''))"

text \<open>A host with the given credentials, \<open>topN\<close>, HTTP helper and \<^verbatim>\<open>fetch\<close>.\<close>

definition example_host ::
  "string option \<Rightarrow> int \<Rightarrow> (http_request \<Rightarrow> error + jsval) \<Rightarrow> (http_request \<Rightarrow> fetch_outcome) \<Rightarrow> host" where
  "example_host b n f g =
     \<lparr>getCredentials = (\<lambda>name. \<lparr>baseUrl = b, apiKey = None\<rparr>),
      model = ''dengcao/Qwen3-Reranker-4B:Q5_K_M'',
      topN = n,
      itemIndex = 0,
      httpRequest = f,
      fetch = g,
      toFixed1 = (\<lambda>n. ''4.7''),
      toLocaleString = (\<lambda>v. ''1/1/2025, 12:00:00 AM''),
      ToString = (\<lambda>v. case v of Str x \<Rightarrow> x | _ \<Rightarrow> ''undefined'')\<rparr>"

text \<open>Four documents at the references 0 to 3; the second has a metadata object, at 0.\<close>

definition example_store :: "unit store" where
  "example_store =
     \<lparr>docs = (\<lambda>r. \<lparr>pageContent = [], metadata = None\<rparr>)
        (0 := \<lparr>pageContent = ''Gravity is a force that attracts masses.'', metadata = None\<rparr>,
         1 := \<lparr>pageContent = ''Beijing is the capital of China.'', metadata = Some 0\<rparr>,
         2 := \<lparr>pageContent = ''Paris is the capital of France.'', metadata = None\<rparr>,
         3 := \<lparr>pageContent = ''Beijing hosts the central government.'', metadata = None\<rparr>),
      metas = (\<lambda>m. Map.empty)(0 := [''source'' \<mapsto> Str ''wiki'']),
      limit = 1\<rparr>"

definition example_query :: string where
  "example_query = ''What is the capital of China?''"

text \<open>The documents that the results of a reranker point at.\<close>

definition looked_up :: "ref list \<Rightarrow> rerank_result list \<Rightarrow> ref set" where
  "looked_up ds rs = {d. \<exists>r \<in> set rs. js_index ds (index r) = Some d}"

definition offline :: "http_request \<Rightarrow> fetch_outcome" where
  "offline req = Fetch_failed ''fetch failed''"

definition refused :: "http_request \<Rightarrow> error + jsval" where
  "refused req = Inl (Rejected ''connect ECONNREFUSED'')"

definition grading_host :: "int \<Rightarrow> host" where
  "grading_host n = example_host (Some ''http://localhost:11434/'') n example_grader offline"

text \<open>The example store after the classification node has kept three documents.\<close>

definition example_store_after :: "unit store" where
  "example_store_after =
     \<lparr>docs = (\<lambda>r. \<lparr>pageContent = [], metadata = None\<rparr>)
        (0 := \<lparr>pageContent = ''Gravity is a force that attracts masses.'', metadata = Some 2\<rparr>,
         1 := \<lparr>pageContent = ''Beijing is the capital of China.'', metadata = Some 0\<rparr>,
         2 := \<lparr>pageContent = ''Paris is the capital of France.'', metadata = None\<rparr>,
         3 := \<lparr>pageContent = ''Beijing hosts the central government.'', metadata = Some 1\<rparr>),
      metas = (\<lambda>m. Map.empty)
        (0 := [''source'' \<mapsto> Str ''wiki'', ''relevanceScore'' \<mapsto> Num (Fin 1)],
         1 := [''relevanceScore'' \<mapsto> Num (Fin 1)],
         2 := [''relevanceScore'' \<mapsto> Num (Fin 0)]),
      limit = 3\<rparr>"

text \<open>Two documents that share one metadata object, at 0.\<close>

definition aliased_store :: "unit store" where
  "aliased_store =
     \<lparr>docs = (\<lambda>r. \<lparr>pageContent = [], metadata = None\<rparr>)
        (0 := \<lparr>pageContent = ''Beijing is the capital of China.'', metadata = Some 0\<rparr>,
         1 := \<lparr>pageContent = ''Gravity is a force that attracts masses.'', metadata = Some 0\<rparr>),
      metas = (\<lambda>m. Map.empty)(0 := [''source'' \<mapsto> Str ''wiki'']),
      limit = 1\<rparr>"

text \<open>A generation endpoint that answers every request with the text \<open>t\<close>.\<close>

definition reply_with :: "string \<Rightarrow> http_request \<Rightarrow> error + jsval" where
  "reply_with t req = Inr (generate_reply t)"

definition ranking_host :: "string \<Rightarrow> int \<Rightarrow> host" where
  "ranking_host t n = example_host (Some ''http://localhost:11434'') n (reply_with t) offline"

definition quoted :: "string \<Rightarrow> string" where
  "quoted x = CHR 0x22 # x @ [CHR 0x22]"

text \<open>\<^verbatim>\<open>{"index":2,"score":0.9},{"index":1,"score":0.4}\<close>, then the same in brackets.\<close>

definition example_entries_text :: string where
  "example_entries_text =
     ''{'' @ quoted ''index'' @ '':2,'' @ quoted ''score'' @ '':0.9},{''
       @ quoted ''index'' @ '':1,'' @ quoted ''score'' @ '':0.4}''"

definition example_array_text :: string where
  "example_array_text = CHR ''['' # example_entries_text @ [CHR '']'']"

text \<open>\<^verbatim>\<open>Some text [{"index":2,"score":0.9},{"index":1,"score":0.4}] trailing\<close>\<close>

definition example_ranking_text :: string where
  "example_ranking_text = ''Some text '' @ example_array_text @ '' trailing''"

text \<open>\<^verbatim>\<open>[{"index":5,"score":0.9}]\<close>\<close>

definition out_of_range_text :: string where
  "out_of_range_text = ''[{'' @ quoted ''index'' @ '':5,'' @ quoted ''score'' @ '':0.9}]''"

text \<open>A server that answers the listing request with status 200 and the given body;
  \<open>None\<close> is a body that is not JSON.\<close>

definition lister_host :: "string option \<Rightarrow> jsval option \<Rightarrow> host" where
  "lister_host b json =
     example_host b 3 refused (\<lambda>req. Fetch_response True 200 ''OK'' json)"

section \<open>Properties\<close>

lemma js_includes_sublist: "js_includes s t = sublist t s"
  by (induction s) (auto simp: sublist_Cons_right)


subsection \<open>Doubles\<close>

lemma bitlen_bounds:
  "0 < n \<Longrightarrow> 0 < bitlen n \<and> 2 ^ nat (bitlen n - 1) \<le> n \<and> n < 2 ^ nat (bitlen n)"
proof (induction n rule: bitlen.induct)
  case (1 n)
  show ?case
  proof (cases "n = 1")
    case True
    then show ?thesis by (simp add: bitlen.simps)
  next
    case False
    with "1.prems" have half: "0 < n div 2" by simp
    from "1.prems" have "\<not> n \<le> 0" by simp
    from "1.IH" [OF this half] have
      b: "0 < bitlen (n div 2)" and lo: "2 ^ nat (bitlen (n div 2) - 1) \<le> n div 2"
      and hi: "n div 2 < 2 ^ nat (bitlen (n div 2))"
      by simp_all
    have eq: "bitlen n = 1 + bitlen (n div 2)"
      using "1.prems" by (subst bitlen.simps) simp
    have n1: "nat (bitlen n - 1) = Suc (nat (bitlen (n div 2) - 1))"
      using b eq by simp
    have n2: "nat (bitlen n) = Suc (nat (bitlen (n div 2)))"
      using b eq by simp
    have "2 * (n div 2) \<le> n" by simp
    with lo have 1: "2 ^ nat (bitlen n - 1) \<le> n" unfolding n1 by simp
    have "n < 2 * (n div 2) + 2" by simp
    with hi have 2: "n < 2 ^ nat (bitlen n)" unfolding n2 by simp
    from b eq 1 2 show ?thesis by simp
  qed
qed

lemma round_half_even_int: "round_half_even (of_int j) = j"
  by (simp add: round_half_even_def)

text \<open>Integers of magnitude below \<open>2^53\<close> are doubles.\<close>

lemma to_double_pos_int:
  assumes "0 < i" "i < 2 ^ 53"
  shows "to_double (of_int i) = Fin (of_int i)"
proof -
  from bitlen_bounds [OF assms(1)] have b: "0 < bitlen i" and lo: "2 ^ nat (bitlen i - 1) \<le> i" by simp_all
  have "nat (bitlen i - 1) < 53"
  proof (rule ccontr)
    assume "\<not> nat (bitlen i - 1) < 53"
    then have "(2::int) ^ 53 \<le> 2 ^ nat (bitlen i - 1)" by (intro power_increasing) simp_all
    with lo assms(2) show False by simp
  qed
  with b have e: "0 \<le> bitlen i - 1" "bitlen i - 1 \<le> 52" by simp_all
  define k where "k = nat (52 - (bitlen i - 1))"
  have il: "ilog2 (of_int i) = bitlen i - 1"
    using assms(1) by (simp add: ilog2_def)
  have u: "pow2 (bitlen i - 1 - 52) = 1 / 2 ^ k"
  proof (cases "bitlen i - 1 = 52")
    case True
    then show ?thesis by (simp add: pow2_def k_def)
  next
    case False
    with e have "bitlen i - 1 - 52 < 0" by simp
    then show ?thesis by (simp add: pow2_def k_def)
  qed
  have q: "(of_int i :: rat) / (1 / 2 ^ k) = of_int (i * 2 ^ k)" by simp
  have big: "\<not> pow2 1024 \<le> (of_int i :: rat)"
  proof -
    have "(of_int i :: rat) < of_int (2 ^ 53)" using assms(2) by (simp only: of_int_less_iff)
    also have "\<dots> \<le> pow2 1024" by (simp add: pow2_def)
    finally show ?thesis by simp
  qed
  have m: "max (bitlen i - 1) (- 1022) = bitlen i - 1" using e by simp
  have v: "(of_int (round_half_even (of_int i / (1 / 2 ^ k))) :: rat) * (1 / 2 ^ k) = of_int i"
    unfolding q round_half_even_int by simp
  from assms(1) have nz: "(of_int i :: rat) \<noteq> 0" "\<not> (of_int i :: rat) < 0" "\<bar>of_int i :: rat\<bar> = of_int i"
    by simp_all
  show ?thesis
    unfolding to_double_def Let_def nz il m u v using nz big by simp
qed

lemma to_double_neg:
  "to_double (- q) = (case to_double q of Fin v \<Rightarrow> Fin (- v) | PosInf \<Rightarrow> NegInf | NegInf \<Rightarrow> PosInf | NaN \<Rightarrow> NaN)"
proof (cases "q = 0")
  case True
  then show ?thesis by (simp add: to_double_def)
next
  case False
  define v where "v = of_int (round_half_even (\<bar>q\<bar> / pow2 (max (ilog2 \<bar>q\<bar>) (- 1022) - 52)))
                        * pow2 (max (ilog2 \<bar>q\<bar>) (- 1022) - 52)"
  have pos: "to_double q = (if pow2 1024 \<le> v then (if q < 0 then NegInf else PosInf)
                            else Fin (if q < 0 then - v else v))"
    using False unfolding to_double_def Let_def v_def by simp
  have neg: "to_double (- q) = (if pow2 1024 \<le> v then (if - q < 0 then NegInf else PosInf)
                            else Fin (if - q < 0 then - v else v))"
    using False unfolding to_double_def Let_def v_def by simp
  show ?thesis
  proof (cases "q < 0")
    case True
    then have "\<not> - q < 0" by simp
    with True show ?thesis unfolding pos neg by simp
  next
    case no: False
    with False have "- q < 0" by simp
    with no show ?thesis unfolding pos neg by simp
  qed
qed

lemma to_double_int:
  assumes "\<bar>i\<bar> < 2 ^ 53"
  shows "to_double (of_int i) = Fin (of_int i)"
proof -
  consider "i = 0" | "0 < i" | "i < 0" by linarith
  then show ?thesis
  proof cases
    case 1
    then show ?thesis by (simp add: to_double_def)
  next
    case 2
    with assms show ?thesis by (intro to_double_pos_int) simp_all
  next
    case 3
    with assms have "to_double (of_int (- i)) = Fin (of_int (- i))" by (intro to_double_pos_int) simp_all
    then have "to_double (- of_int (- i)) = Fin (- of_int (- i))"
      by (subst to_double_neg) simp
    then show ?thesis by simp
  qed
qed

lemma to_double_nat:
  assumes "n < 2 ^ 53"
  shows "to_double (of_nat n) = Fin (of_nat n)"
proof -
  from assms have "\<bar>int n\<bar> < 2 ^ 53" by simp
  from to_double_int [OF this] show ?thesis by simp
qed

lemma to_double_small [simp]:
  "to_double 0 = Fin 0" "to_double 1 = Fin 1" "to_double (- 1) = Fin (- 1)"
  using to_double_int [of 0] to_double_int [of 1] to_double_int [of "- 1"] by simp_all

lemma to_double_numeral [simp]:
  "(numeral k :: int) < 2 ^ 53 \<Longrightarrow> to_double (numeral k) = Fin (numeral k)"
  using to_double_int [of "numeral k"] by simp

subsection \<open>Sorting, slicing and the settled promises\<close>

lemma Promise_all_Inr: "Promise_all ps = Inr xs \<Longrightarrow> ps = map Inr xs"
proof (induction ps arbitrary: xs)
  case Nil
  then show ?case by simp
next
  case (Cons p ps)
  then show ?case
    by (cases p) (auto split: sum.splits)
qed

lemma js_insert_skip:
  "\<forall>y \<in> set ys. \<not> num_le0 (cmp x y) \<Longrightarrow> js_insert cmp x (ys @ zs) = ys @ js_insert cmp x zs"
  by (induction ys) auto

lemma js_insert_front:
  "(\<And>y. y \<in> set ys \<Longrightarrow> num_le0 (cmp x y)) \<Longrightarrow> js_insert cmp x ys = x # ys"
  by (cases ys) auto

lemma length_js_insert: "length (js_insert cmp x ys) = Suc (length ys)"
  by (induction ys) auto

lemma length_js_sort: "length (js_sort cmp xs) = length xs"
  by (induction xs) (auto simp: js_sort_def length_js_insert)

lemma js_sort_by_score:
  assumes "\<forall>r \<in> set rs. binary_score r"
  shows "js_sort by_score_desc rs =
           filter (\<lambda>r. relevanceScore r = Num (Fin 1)) rs @ filter (\<lambda>r. relevanceScore r = Num (Fin 0)) rs"
  using assms
proof (induction rs)
  case Nil
  then show ?case by (simp add: js_sort_def)
next
  case (Cons x xs)
  let ?ones = "filter (\<lambda>r. relevanceScore r = Num (Fin 1)) xs"
  let ?zeros = "filter (\<lambda>r. relevanceScore r = Num (Fin 0)) xs"
  from Cons have IH: "js_sort by_score_desc xs = ?ones @ ?zeros" by simp
  have step: "js_sort by_score_desc (x # xs) = js_insert by_score_desc x (?ones @ ?zeros)"
    using IH by (simp add: js_sort_def)
  from Cons.prems have "binary_score x" by simp
  then consider (one) "relevanceScore x = Num (Fin 1)" | (zero) "relevanceScore x = Num (Fin 0)"
    by (auto simp: binary_score_def)
  then show ?case
  proof cases
    case one
    have "js_insert by_score_desc x (?ones @ ?zeros) = x # ?ones @ ?zeros"
      by (rule js_insert_front) (auto simp: by_score_desc_def one)
    with step one show ?thesis by simp
  next
    case zero
    have "js_insert by_score_desc x (?ones @ ?zeros) = ?ones @ js_insert by_score_desc x ?zeros"
      by (rule js_insert_skip) (auto simp: by_score_desc_def zero)
    moreover have "js_insert by_score_desc x ?zeros = x # ?zeros"
      by (rule js_insert_front) (auto simp: by_score_desc_def zero)
    ultimately show ?thesis using step zero by simp
  qed
qed

lemma js_slice0_take: "js_slice0 e xs = take (nat (if e < 0 then int (length xs) + e else e)) xs"
  by (auto simp: js_slice0_def Let_def min_def max_def)

lemma js_slice0_nonneg: "0 \<le> e \<Longrightarrow> js_slice0 (min e (int (length xs))) xs = take (nat e) xs"
  by (auto simp: js_slice0_def Let_def min_def max_def)

subsection \<open>The classification reranker\<close>

lemma score_of_binary: "score_of a = Num (Fin 1) \<or> score_of a = Num (Fin 0)"
  by (simp add: score_of_def split: jsval.splits)

lemma rerankCall_Inr:
  assumes "snd (rerankCall h s u hs query p) = Inr r"
  shows "index r = Fin (of_nat (fst p)) \<and> binary_score r"
proof -
  from assms obtain answer where "r = \<lparr>index = Fin (of_nat (fst p)), relevanceScore = score_of answer\<rparr>"
    by (auto simp: rerankCall_def Let_def bindE_def split: sum.splits)
  then show ?thesis
    using score_of_binary [of answer] by (simp add: binary_score_def)
qed

lemma enumerate_results:
  assumes "map snd (map f (enumerate n ds)) = map Inr results"
    and "\<And>p r. snd (f p) = Inr r \<Longrightarrow> index r = Fin (of_nat (fst p)) \<and> binary_score r"
  shows "length results = length ds \<and>
         (\<forall>i < length ds. index (results ! i) = Fin (of_nat (n + i)) \<and> binary_score (results ! i))"
proof -
  have len: "length results = length ds"
    using assms(1) by (metis length_map length_enumerate)
  moreover have "index (results ! i) = Fin (of_nat (n + i)) \<and> binary_score (results ! i)"
    if "i < length ds" for i
  proof -
    have "snd (f (n + i, ds ! i)) = map snd (map f (enumerate n ds)) ! i"
      using that by (simp add: nth_enumerate_eq)
    also have "\<dots> = map Inr results ! i"
      by (simp only: assms(1))
    also have "\<dots> = Inr (results ! i)"
      using that len by simp
    finally have "snd (f (n + i, ds ! i)) = Inr (results ! i)" .
    from assms(2) [OF this] show ?thesis by simp
  qed
  ultimately show ?thesis by blast
qed

text \<open>What a run of \<open>rerankQwen\<close> that succeeds returns: the per-document results, collected
  in input order, those with score 1 before those with score 0, cut by the slice.\<close>

lemma rerankQwen_Inr:
  assumes "rerankQwen h s documents query = (Inr out, reqs)"
  shows "\<exists>results. length results = length documents \<and>
           (\<forall>i < length documents. index (results ! i) = Fin (of_nat i) \<and> binary_score (results ! i)) \<and>
           out = js_slice0 (min (topN h) (int (length documents)))
                   (filter (\<lambda>r. relevanceScore r = Num (Fin 1)) results
                    @ filter (\<lambda>r. relevanceScore r = Num (Fin 0)) results)"
proof -
  define calls where "calls = map (rerankCall h s
      (rerank_baseUrl (getCredentials h ''ollamaApi'') @ ''/api/chat'')
      (request_headers (getCredentials h ''ollamaApi'')) query) (enumerate 0 documents)"
  from assms obtain results where all: "Promise_all (map snd calls) = Inr results"
    and out: "out = js_slice0 (min (topN h) (int (length (js_sort by_score_desc results))))
                      (js_sort by_score_desc results)"
    by (auto simp: rerankQwen_def Let_def bindE_def calls_def split: sum.splits)
  from Promise_all_Inr [OF all] have "map snd calls = map Inr results" .
  then have facts: "length results = length documents \<and>
      (\<forall>i < length documents. index (results ! i) = Fin (of_nat (0 + i)) \<and> binary_score (results ! i))"
    unfolding calls_def by (rule enumerate_results) (rule rerankCall_Inr)
  then have bin: "\<forall>r \<in> set results. binary_score r"
    by (metis in_set_conv_nth)
  have len: "length (js_sort by_score_desc results) = length documents"
    using facts by (simp add: length_js_sort)
  from out have "out = js_slice0 (min (topN h) (int (length documents))) (js_sort by_score_desc results)"
    by (simp only: len)
  then have "out = js_slice0 (min (topN h) (int (length documents)))
                   (filter (\<lambda>r. relevanceScore r = Num (Fin 1)) results
                    @ filter (\<lambda>r. relevanceScore r = Num (Fin 0)) results)"
    by (simp only: js_sort_by_score [OF bin])
  with facts show ?thesis by auto
qed

subsection \<open>The order of the classification results\<close>

lemma ones_before_zeros:
  assumes "out = take k (A @ B)" "\<forall>a \<in> set A. P a" "\<forall>b \<in> set B. \<not> P b"
    "i < length out" "j < length out" "P (out ! i)" "\<not> P (out ! j)"
  shows "i < j"
proof -
  have i: "out ! i = (A @ B) ! i" "i < length (A @ B)" and j: "out ! j = (A @ B) ! j" "j < length (A @ B)"
    using assms(1,4,5) by (simp_all del: take_append)
  have "i < length A"
  proof (rule ccontr)
    assume "\<not> i < length A"
    then have "(A @ B) ! i \<in> set B" using i(2) by (simp add: nth_append)
    with assms(3,6) i(1) show False by simp
  qed
  moreover have "\<not> j < length A"
  proof
    assume "j < length A"
    then have "(A @ B) ! j \<in> set A" by (simp add: nth_append)
    with assms(2,7) j(1) show False by simp
  qed
  ultimately show ?thesis by simp
qed

lemma results_sorted:
  assumes "length results = n" "\<forall>i < n. index (results ! i) = Fin (of_nat i) \<and> binary_score (results ! i)"
  shows "sorted_wrt ranked_before
           (filter (\<lambda>r. relevanceScore r = Num (Fin 1)) results @ filter (\<lambda>r. relevanceScore r = Num (Fin 0)) results)"
proof -
  let ?lt = "\<lambda>a b. \<exists>x y. index a = Fin x \<and> index b = Fin y \<and> x < y"
  have base: "sorted_wrt ?lt results"
    using assms by (auto simp: sorted_wrt_iff_nth_less)
  have one: "sorted_wrt ranked_before (filter (\<lambda>r. relevanceScore r = Num (Fin 1)) results)"
    by (rule sorted_wrt_mono_rel [OF _ sorted_wrt_filter [OF base]]) (auto simp: ranked_before_def)
  have zero: "sorted_wrt ranked_before (filter (\<lambda>r. relevanceScore r = Num (Fin 0)) results)"
    by (rule sorted_wrt_mono_rel [OF _ sorted_wrt_filter [OF base]]) (auto simp: ranked_before_def)
  have idx: "\<exists>x. index r = Fin x" if "r \<in> set results" for r
    using that assms by (metis in_set_conv_nth)
  have cross: "ranked_before a b"
    if a: "a \<in> set (filter (\<lambda>r. relevanceScore r = Num (Fin 1)) results)"
       and b: "b \<in> set (filter (\<lambda>r. relevanceScore r = Num (Fin 0)) results)" for a b
  proof -
    from a b have "a \<in> set results" "b \<in> set results" by simp_all
    with idx obtain x y where "index a = Fin x" "index b = Fin y" by blast
    with a b show ?thesis by (simp add: ranked_before_def)
  qed
  show ?thesis
    using one zero cross by (simp add: sorted_wrt_append)
qed

lemma example_rerankQwen:
  "rerankQwen (grading_host 3) example_store [0, 1, 2, 3] example_query
   = (Inr [\<lparr>index = Fin 1, relevanceScore = Num (Fin 1)\<rparr>,
           \<lparr>index = Fin 3, relevanceScore = Num (Fin 1)\<rparr>,
           \<lparr>index = Fin 0, relevanceScore = Num (Fin 0)\<rparr>],
      map (\<lambda>d. \<lparr>req_method = ''POST'', url = ''http://localhost:11434/api/chat'',
                headers = [(''Content-Type'', ''application/json'')],
                body = Chat ''dengcao/Qwen3-Reranker-4B:Q5_K_M''
                  [(''user'', grader_prompt example_query (pageContent (docs example_store d)))] 0 200 False\<rparr>)
        [0, 1, 2, 3])"
  by (simp add: rerankQwen_def rerankCall_def grading_host_def example_host_def example_grader_def
      example_store_def example_query_def
      enumerate_eq_zip upt_rec grader_prompt_def chat_reply_def bindE_def answer_of_def opt_prop_def score_of_def
      js_trim_def strip_spaces.simps space_len_def wide_spaces_def is_space_def toLowerCase_def lower_char_def js_sort_def by_score_desc_def js_slice0_def
      request_headers_def str_or_def rerank_baseUrl_def strip_trailing_slashes_def Let_def)

text \<open>
  C2.  Classification variant.  A reply whose content is the text \<open>c\<close> gives its document
  the score 1 when \<open>c\<close>, trimmed and in lower case, contains \<^verbatim>\<open>yes\<close>, and the score 0
  otherwise; the reply \<^verbatim>\<open>Yes, relevant.\<close> scores 1 and the reply \<^verbatim>\<open>No.\<close> scores 0; in
  what \<open>rerankQwen\<close> returns every score is 1 or 0 and every result with score 1 stands
  before every result with score 0.
\<close>

theorem rerankQwen_yes_no:
  "(\<forall>response c.
      httpRequest h (fst (rerankCall h s u hs query p)) = Inr response \<longrightarrow>
      opt_prop (opt_prop response ''message'') ''content'' = Str c \<longrightarrow>
      snd (rerankCall h s u hs query p)
        = Inr \<lparr>index = Fin (of_nat (fst p)),
               relevanceScore = Num (Fin (if js_includes (toLowerCase (js_trim c)) ''yes'' then 1 else 0))\<rparr>) \<and>
   bindE (answer_of (chat_reply ''Yes, relevant.'')) (\<lambda>a. Inr (score_of a)) = Inr (Num (Fin 1)) \<and>
   bindE (answer_of (chat_reply ''No.'')) (\<lambda>a. Inr (score_of a)) = Inr (Num (Fin 0)) \<and>
   (\<forall>out reqs.
      rerankQwen h s documents query = (Inr out, reqs) \<longrightarrow>
      (\<forall>r \<in> set out. binary_score r) \<and>
      (\<forall>i j. i < length out \<longrightarrow> j < length out \<longrightarrow>
             relevanceScore (out ! i) = Num (Fin 1) \<longrightarrow> relevanceScore (out ! j) = Num (Fin 0) \<longrightarrow> i < j))"
proof (intro conjI allI impI)
  fix response c
  assume "httpRequest h (fst (rerankCall h s u hs query p)) = Inr response"
    and "opt_prop (opt_prop response ''message'') ''content'' = Str c"
  then show "snd (rerankCall h s u hs query p)
        = Inr \<lparr>index = Fin (of_nat (fst p)),
               relevanceScore = Num (Fin (if js_includes (toLowerCase (js_trim c)) ''yes'' then 1 else 0))\<rparr>"
    by (simp add: rerankCall_def Let_def bindE_def answer_of_def score_of_def)
next
  show "bindE (answer_of (chat_reply ''Yes, relevant.'')) (\<lambda>a. Inr (score_of a)) = Inr (Num (Fin 1))"
    by (simp add: bindE_def answer_of_def chat_reply_def opt_prop_def score_of_def js_trim_def
        strip_spaces.simps space_len_def wide_spaces_def is_space_def toLowerCase_def lower_char_def)
next
  show "bindE (answer_of (chat_reply ''No.'')) (\<lambda>a. Inr (score_of a)) = Inr (Num (Fin 0))"
    by (simp add: bindE_def answer_of_def chat_reply_def opt_prop_def score_of_def js_trim_def
        strip_spaces.simps space_len_def wide_spaces_def is_space_def toLowerCase_def lower_char_def)
next
  fix out reqs
  assume run: "rerankQwen h s documents query = (Inr out, reqs)"
  from rerankQwen_Inr [OF run] obtain results where
    len: "length results = length documents" and
    each: "\<forall>i < length documents. index (results ! i) = Fin (of_nat i) \<and> binary_score (results ! i)" and
    out: "out = js_slice0 (min (topN h) (int (length documents)))
                   (filter (\<lambda>r. relevanceScore r = Num (Fin 1)) results
                    @ filter (\<lambda>r. relevanceScore r = Num (Fin 0)) results)"
    by blast
  have bin: "\<forall>r \<in> set results. binary_score r"
    using len each by (metis in_set_conv_nth)
  show "\<forall>r \<in> set out. binary_score r"
  proof
    fix r assume "r \<in> set out"
    then have "r \<in> set results"
      unfolding out js_slice0_take by (auto dest!: in_set_takeD)
    with bin show "binary_score r" by simp
  qed
  fix i j
  assume i: "i < length out" and j: "j < length out"
    and si: "relevanceScore (out ! i) = Num (Fin 1)" and sj: "relevanceScore (out ! j) = Num (Fin 0)"
  from sj have nj: "\<not> relevanceScore (out ! j) = Num (Fin 1)" by simp
  have A: "\<forall>a \<in> set (filter (\<lambda>r. relevanceScore r = Num (Fin 1)) results). relevanceScore a = Num (Fin 1)"
    by simp
  have B: "\<forall>b \<in> set (filter (\<lambda>r. relevanceScore r = Num (Fin 0)) results). \<not> relevanceScore b = Num (Fin 1)"
    by simp
  show "i < j"
    by (rule ones_before_zeros [OF out [unfolded js_slice0_take] A B i j si nj])
qed


theorem rerankQwen_yes_no_witness:
  "httpRequest (grading_host 3)
     (fst (rerankCall (grading_host 3) example_store ''http://localhost:11434/api/chat'' [] example_query (1, 1)))
     = Inr (chat_reply ''Yes, relevant.'') \<and>
   opt_prop (opt_prop (chat_reply ''Yes, relevant.'') ''message'') ''content'' = Str ''Yes, relevant.'' \<and>
   snd (rerankCall (grading_host 3) example_store ''http://localhost:11434/api/chat'' [] example_query (1, 1))
     = Inr \<lparr>index = Fin 1, relevanceScore = Num (Fin 1)\<rparr> \<and>
   fst (rerankQwen (grading_host 3) example_store [0, 1, 2, 3] example_query)
     = Inr [\<lparr>index = Fin 1, relevanceScore = Num (Fin 1)\<rparr>,
            \<lparr>index = Fin 3, relevanceScore = Num (Fin 1)\<rparr>,
            \<lparr>index = Fin 0, relevanceScore = Num (Fin 0)\<rparr>]"
proof -
  let ?p = "(1::nat, 1::nat)"
  let ?call = "rerankCall (grading_host 3) example_store ''http://localhost:11434/api/chat'' [] example_query ?p"
  have req: "httpRequest (grading_host 3) (fst ?call) = Inr (chat_reply ''Yes, relevant.'')"
    by (simp add: rerankCall_def grading_host_def example_host_def example_grader_def example_store_def
        example_query_def grader_prompt_def Let_def)
  have content: "opt_prop (opt_prop (chat_reply ''Yes, relevant.'') ''message'') ''content'' = Str ''Yes, relevant.''"
    by (simp add: chat_reply_def opt_prop_def)
  have "snd ?call = Inr \<lparr>index = Fin (of_nat (fst ?p)),
          relevanceScore = Num (Fin (if js_includes (toLowerCase (js_trim ''Yes, relevant.'')) ''yes'' then 1 else 0))\<rparr>"
    using rerankQwen_yes_no [of "grading_host 3" example_store "''http://localhost:11434/api/chat''" "[]"
        example_query ?p "[0, 1, 2, 3]"] req content
    by blast
  then have res: "snd ?call = Inr \<lparr>index = Fin 1, relevanceScore = Num (Fin 1)\<rparr>"
    by (simp add: js_trim_def strip_spaces.simps space_len_def wide_spaces_def is_space_def toLowerCase_def lower_char_def)
  have run: "fst (rerankQwen (grading_host 3) example_store [0, 1, 2, 3] example_query)
     = Inr [\<lparr>index = Fin 1, relevanceScore = Num (Fin 1)\<rparr>,
            \<lparr>index = Fin 3, relevanceScore = Num (Fin 1)\<rparr>,
            \<lparr>index = Fin 0, relevanceScore = Num (Fin 0)\<rparr>]"
    unfolding example_rerankQwen by simp
  from req content res run show ?thesis by blast
qed

text \<open>
  C9.  Classification variant.  The per-document results are collected in input order, one
  for every position of the input list, and what \<open>rerankQwen\<close> returns is the front of
  the list that has the results with score 1 in input order and then the results with
  score 0 in input order: the output is ordered by score first and by input position among
  equal scores.
\<close>

theorem rerankQwen_stable:
  assumes "rerankQwen h s documents query = (Inr out, reqs)"
  shows "sorted_wrt ranked_before out \<and>
         (\<forall>r \<in> set out. binary_score r \<and> (\<exists>i < length documents. index r = Fin (of_nat i))) \<and>
         (\<exists>results. length results = length documents \<and>
            map index results = map (\<lambda>i. Fin (of_nat i)) [0..<length documents] \<and>
            out = js_slice0 (min (topN h) (int (length documents)))
                    (filter (\<lambda>r. relevanceScore r = Num (Fin 1)) results
                     @ filter (\<lambda>r. relevanceScore r = Num (Fin 0)) results))"
proof -
  from rerankQwen_Inr [OF assms] obtain results where
    len: "length results = length documents" and
    each: "\<forall>i < length documents. index (results ! i) = Fin (of_nat i) \<and> binary_score (results ! i)" and
    out: "out = js_slice0 (min (topN h) (int (length documents)))
                   (filter (\<lambda>r. relevanceScore r = Num (Fin 1)) results
                    @ filter (\<lambda>r. relevanceScore r = Num (Fin 0)) results)"
    by blast
  have "sorted_wrt ranked_before out"
    unfolding out js_slice0_take
    by (rule sorted_wrt_take) (rule results_sorted [OF len each])
  moreover have "binary_score r \<and> (\<exists>i < length documents. index r = Fin (of_nat i))" if "r \<in> set out" for r
  proof -
    from that have "r \<in> set results"
      unfolding out js_slice0_take by (auto dest!: in_set_takeD)
    then obtain i where "i < length results" "results ! i = r"
      by (auto simp: in_set_conv_nth)
    with len each show ?thesis by auto
  qed
  moreover have "map index results = map (\<lambda>i. Fin (of_nat i)) [0..<length documents]"
    using len each by (auto intro!: nth_equalityI)
  ultimately show ?thesis using len out by blast
qed

theorem rerankQwen_stable_witness:
  "rerankQwen (grading_host 3) example_store [0, 1, 2, 3] example_query
     = (Inr [\<lparr>index = Fin 1, relevanceScore = Num (Fin 1)\<rparr>,
             \<lparr>index = Fin 3, relevanceScore = Num (Fin 1)\<rparr>,
             \<lparr>index = Fin 0, relevanceScore = Num (Fin 0)\<rparr>],
        snd (rerankQwen (grading_host 3) example_store [0, 1, 2, 3] example_query)) \<and>
   sorted_wrt ranked_before
     [\<lparr>index = Fin 1, relevanceScore = Num (Fin 1)\<rparr>,
      \<lparr>index = Fin 3, relevanceScore = Num (Fin 1)\<rparr>,
      \<lparr>index = Fin 0, relevanceScore = Num (Fin 0)\<rparr>]"
proof -
  have run: "rerankQwen (grading_host 3) example_store [0, 1, 2, 3] example_query
     = (Inr [\<lparr>index = Fin 1, relevanceScore = Num (Fin 1)\<rparr>,
             \<lparr>index = Fin 3, relevanceScore = Num (Fin 1)\<rparr>,
             \<lparr>index = Fin 0, relevanceScore = Num (Fin 0)\<rparr>],
        snd (rerankQwen (grading_host 3) example_store [0, 1, 2, 3] example_query))"
    unfolding example_rerankQwen by simp
  from rerankQwen_stable [OF run] run show ?thesis by blast
qed


subsection \<open>The store under \<open>finalResults\<close>\<close>

lemma attach_cases:
  "(metadata (docs s d) = None \<and>
      attach s d v = s\<lparr>docs := (docs s)(d := (docs s d)\<lparr>metadata := Some (limit s)\<rparr>),
                        metas := (metas s)(limit s := [''relevanceScore'' \<mapsto> v]),
                        limit := Suc (limit s)\<rparr>)
   \<or> (\<exists>m. metadata (docs s d) = Some m \<and>
      attach s d v = s\<lparr>metas := (metas s)(m := (metas s m)(''relevanceScore'' \<mapsto> v))\<rparr>)"
  by (cases "metadata (docs s d)") (simp_all add: attach_def ensure_metadata_def set_score_def)

lemma attach_other: "d' \<noteq> d \<Longrightarrow> docs (attach s d v) d' = docs s d'"
  using attach_cases [of s d v] by auto

lemma attach_content:
  "pageContent (docs (attach s d v) d') = pageContent (docs s d') \<and>
   doc.more (docs (attach s d v) d') = doc.more (docs s d')"
  using attach_cases [of s d v] by auto

lemma attach_metadata_kept:
  "metadata (docs s d') = Some m \<Longrightarrow> metadata (docs (attach s d v) d') = Some m"
  using attach_cases [of s d v] by auto

lemma attach_metadata_new:
  "metadata (docs s d') = None \<Longrightarrow>
     (d' \<noteq> d \<and> metadata (docs (attach s d v) d') = None) \<or>
     (d' = d \<and> metadata (docs (attach s d v) d') = Some (limit s))"
  using attach_cases [of s d v] by auto

lemma attach_lim: "limit s \<le> limit (attach s d v)"
  using attach_cases [of s d v] by auto

lemma attach_keys: "m < limit s \<Longrightarrow> k \<noteq> ''relevanceScore'' \<Longrightarrow> metas (attach s d v) m k = metas s m k"
  using attach_cases [of s d v] by auto

lemma attach_untouched:
  "m < limit s \<Longrightarrow> metadata (docs s d) \<noteq> Some m \<Longrightarrow> metas (attach s d v) m = metas s m"
  using attach_cases [of s d v] by auto

lemma attach_scored:
  "\<exists>m. metadata (docs (attach s d v) d) = Some m \<and> metas (attach s d v) m ''relevanceScore'' = Some v"
  using attach_cases [of s d v] by auto

lemma attach_score_kept:
  "metas s m ''relevanceScore'' \<noteq> None \<Longrightarrow> metas (attach s d v) m ''relevanceScore'' \<noteq> None"
  using attach_cases [of s d v] by auto

lemma attach_fresh:
  "limit s \<le> m \<Longrightarrow> m < limit (attach s d v) \<Longrightarrow> dom (metas (attach s d v) m) = {''relevanceScore''}"
  using attach_cases [of s d v] by (auto split: if_splits)

lemma looked_up_Cons: "looked_up ds (r # rs) = {d. js_index ds (index r) = Some d} \<union> looked_up ds rs"
  by (auto simp: looked_up_def)

lemma finalResults_Inr:
  "finalResults ds rs s = (Inr out, s') \<Longrightarrow> map Some out = map (\<lambda>r. js_index ds (index r)) rs"
  by (induction rs arbitrary: s out) (auto split: option.splits prod.splits sum.splits)

lemma attach_dom:
  assumes "m < limit s" "dom (metas s m) = {''relevanceScore''}"
  shows "dom (metas (attach s d v) m) = {''relevanceScore''}"
proof (cases "metadata (docs s d)")
  case None
  with attach_cases [of s d v] assms(1) have "metas (attach s d v) m = metas s m" by auto
  with assms(2) show ?thesis by simp
next
  case (Some m')
  with attach_cases [of s d v]
  have "metas (attach s d v) = (metas s)(m' := (metas s m')(''relevanceScore'' \<mapsto> v))" by auto
  with assms(2) show ?thesis by (cases "m = m'") simp_all
qed

text \<open>A property of the store that every step of the map keeps holds at the end, whether the
  map completes or throws.\<close>

lemma finalResults_invariant:
  assumes "finalResults ds rs (s::'a store) = (res, s')"
    and "Q s"
    and "\<And>t r d. Q t \<Longrightarrow> r \<in> set rs \<Longrightarrow> js_index ds (index r) = Some d \<Longrightarrow> Q (attach t d (relevanceScore r))"
  shows "Q s'"
  using assms
proof (induction rs arbitrary: s res)
  case Nil
  then show ?case by simp
next
  case (Cons r rs)
  show ?case
  proof (cases "js_index ds (index r)")
    case None
    with Cons.prems show ?thesis by simp
  next
    case (Some d)
    obtain res1 s1 where rest: "finalResults ds rs (attach s d (relevanceScore r)) = (res1, s1)"
      by (cases "finalResults ds rs (attach s d (relevanceScore r))")
    with Cons.prems(1) Some have "s1 = s'" by (auto split: sum.splits)
    with rest have rest': "finalResults ds rs (attach s d (relevanceScore r)) = (res1, s')" by simp
    have "Q (attach s d (relevanceScore r))"
      using Cons.prems(2,3) Some by simp
    then show ?thesis
      by (rule Cons.IH [OF rest']) (use Cons.prems(3) in auto)
  qed
qed

lemma finalResults_content:
  assumes "finalResults ds rs (s::'a store) = (res, s')"
  shows "pageContent (docs s' d) = pageContent (docs s d) \<and> doc.more (docs s' d) = doc.more (docs s d)"
  by (rule finalResults_invariant [OF assms, where Q = "\<lambda>t::'a store. pageContent (docs t d) = pageContent (docs s d) \<and> doc.more (docs t d) = doc.more (docs s d)"])
     (simp_all add: attach_content)

lemma finalResults_metadata_kept:
  assumes "finalResults ds rs (s::'a store) = (res, s')" "metadata (docs s d) = Some m"
  shows "metadata (docs s' d) = Some m"
  by (rule finalResults_invariant [OF assms(1), where Q = "\<lambda>t::'a store. metadata (docs t d) = Some m"])
     (simp_all add: assms(2) attach_metadata_kept)

lemma finalResults_limit:
  assumes "finalResults ds rs (s::'a store) = (res, s')"
  shows "limit s \<le> limit s'"
proof (rule finalResults_invariant [OF assms, where Q = "\<lambda>t::'a store. limit s \<le> limit t"])
  show "limit s \<le> limit s" by simp
next
  fix t :: "'a store" and r :: rerank_result and d
  assume "limit s \<le> limit t"
  with attach_lim [of t d "relevanceScore r"] show "limit s \<le> limit (attach t d (relevanceScore r))"
    by simp
qed

lemma finalResults_other:
  assumes "finalResults ds rs (s::'a store) = (res, s')" "d \<notin> looked_up ds rs"
  shows "docs s' d = docs s d"
proof (rule finalResults_invariant [OF assms(1), where Q = "\<lambda>t::'a store. docs t d = docs s d"])
  show "docs s d = docs s d" by simp
next
  fix t :: "'a store" and r :: rerank_result and d'
  assume "docs t d = docs s d" "r \<in> set rs" "js_index ds (index r) = Some d'"
  moreover from this assms(2) have "d \<noteq> d'" by (auto simp: looked_up_def)
  ultimately show "docs (attach t d' (relevanceScore r)) d = docs s d"
    by (simp add: attach_other)
qed

lemma finalResults_keys:
  assumes "finalResults ds rs (s::'a store) = (res, s')" "m < limit s" "k \<noteq> ''relevanceScore''"
  shows "metas s' m k = metas s m k"
proof -
  have "limit s \<le> limit s' \<and> metas s' m k = metas s m k"
  proof (rule finalResults_invariant [OF assms(1), where Q = "\<lambda>t::'a store. limit s \<le> limit t \<and> metas t m k = metas s m k"])
    show "limit s \<le> limit s \<and> metas s m k = metas s m k" by simp
  next
    fix t :: "'a store" and r :: rerank_result and d
    assume Q: "limit s \<le> limit t \<and> metas t m k = metas s m k"
    then have "m < limit t" using assms(2) by simp
    from attach_keys [OF this assms(3)] attach_lim [of t d "relevanceScore r"] Q
    show "limit s \<le> limit (attach t d (relevanceScore r)) \<and> metas (attach t d (relevanceScore r)) m k = metas s m k"
      by simp
  qed
  then show ?thesis by simp
qed

lemma finalResults_untouched:
  assumes "finalResults ds rs (s::'a store) = (res, s')" "m < limit s"
    and "\<forall>d \<in> looked_up ds rs. metadata (docs s d) \<noteq> Some m"
  shows "metas s' m = metas s m"
proof -
  let ?Q = "\<lambda>t::'a store. limit s \<le> limit t \<and> metas t m = metas s m \<and> (\<forall>d \<in> looked_up ds rs. metadata (docs t d) \<noteq> Some m)"
  have "?Q s'"
  proof (rule finalResults_invariant [OF assms(1), where Q = ?Q])
    show "?Q s" using assms(3) by simp
  next
    fix t :: "'a store" and r :: rerank_result and d
    assume Q: "?Q t" and r: "r \<in> set rs" "js_index ds (index r) = Some d"
    let ?t' = "attach t d (relevanceScore r)"
    from r have d: "d \<in> looked_up ds rs" by (auto simp: looked_up_def)
    from Q assms(2) have m: "m < limit t" by simp
    from Q d have "metadata (docs t d) \<noteq> Some m" by simp
    from attach_untouched [OF m this] Q have 1: "metas ?t' m = metas s m" by simp
    have 2: "metadata (docs ?t' d') \<noteq> Some m" if "d' \<in> looked_up ds rs" for d'
    proof (cases "metadata (docs t d')")
      case None
      from attach_metadata_new [OF this, of d "relevanceScore r"] m show ?thesis by auto
    next
      case (Some m')
      from attach_metadata_kept [OF this] Some Q that show ?thesis by auto
    qed
    from 1 2 Q attach_lim [of t d "relevanceScore r"] show "?Q ?t'" by auto
  qed
  then show ?thesis by simp
qed

lemma finalResults_score_kept:
  assumes "finalResults ds rs (s::'a store) = (res, s')" "metas s m ''relevanceScore'' \<noteq> None"
  shows "metas s' m ''relevanceScore'' \<noteq> None"
  by (rule finalResults_invariant [OF assms(1), where Q = "\<lambda>t::'a store. metas t m ''relevanceScore'' \<noteq> None"])
     (simp_all add: assms(2) attach_score_kept)

lemma finalResults_scored:
  "finalResults ds rs s = (Inr out, s') \<Longrightarrow> d \<in> set out \<Longrightarrow>
     \<exists>m. metadata (docs s' d) = Some m \<and> metas s' m ''relevanceScore'' \<noteq> None"
proof (induction rs arbitrary: s out)
  case Nil
  then show ?case by simp
next
  case (Cons r rs)
  from Cons.prems(1) obtain d0 where d0: "js_index ds (index r) = Some d0"
    by (cases "js_index ds (index r)") auto
  let ?s1 = "attach s d0 (relevanceScore r)"
  from Cons.prems(1) d0 obtain out1 where rest: "finalResults ds rs ?s1 = (Inr out1, s')" and out: "out = d0 # out1"
    by (auto split: prod.splits sum.splits)
  show ?case
  proof (cases "d \<in> set out1")
    case True
    from Cons.IH [OF rest True] show ?thesis .
  next
    case False
    with Cons.prems(2) out have "d = d0" by simp
    with attach_scored [of s d0 "relevanceScore r"] obtain m where
      "metadata (docs ?s1 d) = Some m" "metas ?s1 m ''relevanceScore'' \<noteq> None" by auto
    with finalResults_metadata_kept [OF rest] finalResults_score_kept [OF rest] show ?thesis by blast
  qed
qed

lemma finalResults_fresh:
  assumes "finalResults ds rs (s::'a store) = (res, s')" "limit s \<le> m" "m < limit s'"
  shows "dom (metas s' m) = {''relevanceScore''}"
proof -
  let ?Q = "\<lambda>t::'a store. limit s \<le> limit t \<and> (\<forall>m. limit s \<le> m \<and> m < limit t \<longrightarrow> dom (metas t m) = {''relevanceScore''})"
  have "?Q s'"
  proof (rule finalResults_invariant [OF assms(1), where Q = ?Q])
    show "?Q s" by auto
  next
    fix t :: "'a store" and r :: rerank_result and d
    assume Q: "?Q t"
    let ?t' = "attach t d (relevanceScore r)"
    have "dom (metas ?t' m) = {''relevanceScore''}" if "limit s \<le> m" "m < limit ?t'" for m
    proof (cases "m < limit t")
      case True
      with Q that have "dom (metas t m) = {''relevanceScore''}" by simp
      from attach_dom [OF True this] show ?thesis .
    next
      case False
      then have "limit t \<le> m" by simp
      from attach_fresh [OF this that(2)] show ?thesis .
    qed
    with Q attach_lim [of t d "relevanceScore r"] show "?Q ?t'" by auto
  qed
  with assms(2,3) show ?thesis by simp
qed

lemma finalResults_created:
  assumes "finalResults ds rs (s::'a store) = (res, s')" "metadata (docs s d) = None" "metadata (docs s' d) = Some m"
  shows "limit s \<le> m \<and> m < limit s'"
proof -
  let ?Q = "\<lambda>t::'a store. limit s \<le> limit t \<and> (\<forall>m. metadata (docs t d) = Some m \<longrightarrow> limit s \<le> m \<and> m < limit t)"
  have "?Q s'"
  proof (rule finalResults_invariant [OF assms(1), where Q = ?Q])
    show "?Q s" using assms(2) by simp
  next
    fix t :: "'a store" and r :: rerank_result and d'
    assume Q: "?Q t"
    let ?t' = "attach t d' (relevanceScore r)"
    have "limit s \<le> m \<and> m < limit ?t'" if m: "metadata (docs ?t' d) = Some m" for m
    proof (cases "metadata (docs t d)")
      case None
      from attach_metadata_new [OF this, of d' "relevanceScore r"] m have "m = limit t \<and> d = d'" by auto
      moreover from this None have "limit ?t' = Suc (limit t)"
        using attach_cases [of t d' "relevanceScore r"] by auto
      ultimately show ?thesis using Q by simp
    next
      case (Some m')
      from attach_metadata_kept [OF this, of d' "relevanceScore r"] m have "m = m'" by simp
      with Some Q attach_lim [of t d' "relevanceScore r"] show ?thesis by (meson le_trans less_le_trans)
    qed
    with Q attach_lim [of t d' "relevanceScore r"] show "?Q ?t'" by (meson le_trans)
  qed
  with assms(3) show ?thesis by simp
qed


lemma looked_up_Inr: "finalResults ds rs s = (Inr out, s') \<Longrightarrow> looked_up ds rs = set out"
proof (induction rs arbitrary: s out)
  case Nil
  then show ?case by (simp add: looked_up_def)
next
  case (Cons r rs)
  from Cons.prems obtain d0 where d0: "js_index ds (index r) = Some d0"
    by (cases "js_index ds (index r)") auto
  from Cons.prems d0 obtain out1 where
    rest: "finalResults ds rs (attach s d0 (relevanceScore r)) = (Inr out1, s')" and out: "out = d0 # out1"
    by (auto split: prod.splits sum.splits)
  from Cons.IH [OF rest] d0 out show ?case
    by (auto simp: looked_up_Cons)
qed

subsection \<open>How \<open>compressDocuments\<close> ends\<close>

lemma mapE_Inr: "mapE f xs = Inr ys \<Longrightarrow> map Inr ys = map f xs"
proof (induction xs arbitrary: ys)
  case Nil
  then show ?case by simp
next
  case (Cons x xs)
  then show ?case by (auto split: sum.splits)
qed

lemma mapE_length: "mapE f xs = Inr ys \<Longrightarrow> length ys = length xs"
  by (drule mapE_Inr) (metis length_map)

lemma length_js_slice0: "0 \<le> e \<Longrightarrow> int (length (js_slice0 (min e (int (length xs))) xs)) \<le> e"
  by (simp add: js_slice0_nonneg)

lemma js_slice0_length_le: "0 \<le> e \<Longrightarrow> length (js_slice0 e xs) \<le> nat e"
  by (simp add: js_slice0_take)

lemma parse_rankings_length:
  assumes "parse_rankings h response = Inr rs" "0 \<le> topN h"
  shows "int (length rs) \<le> topN h"
proof -
  from assms(1) obtain results where
    "mapE ranking_of (js_slice0 (min (topN h) (int (length results))) results) = Inr rs"
    by (auto simp: parse_rankings_def bindE_def split: sum.splits jsval.splits option.splits)
  from mapE_length [OF this] length_js_slice0 [OF assms(2), of results] show ?thesis by simp
qed

lemma rerank_length:
  assumes "rerank h s documents query = (Inr rs, reqs)" "0 \<le> topN h"
  shows "int (length rs) \<le> topN h"
proof -
  from assms(1) obtain response where "parse_rankings h response = Inr rs"
    by (auto simp: rerank_def Let_def bindE_def split: sum.splits)
  from parse_rankings_length [OF this assms(2)] show ?thesis .
qed

lemma rerankQwen_length:
  assumes "rerankQwen h s documents query = (Inr rs, reqs)" "0 \<le> topN h"
  shows "int (length rs) \<le> topN h"
proof -
  from rerankQwen_Inr [OF assms(1)] obtain results where
    len: "length results = length documents" and
    out: "rs = js_slice0 (min (topN h) (int (length documents)))
                   (filter (\<lambda>r. relevanceScore r = Num (Fin 1)) results
                    @ filter (\<lambda>r. relevanceScore r = Num (Fin 0)) results)"
    by blast
  have "0 \<le> min (topN h) (int (length documents))"
    using assms(2) by simp
  from js_slice0_length_le [OF this] have "length rs \<le> nat (min (topN h) (int (length documents)))"
    unfolding out .
  with assms(2) show ?thesis by simp
qed

lemma finalResults_length: "finalResults ds rs s = (Inr out, s') \<Longrightarrow> length out = length rs"
  by (drule finalResults_Inr) (metis length_map)

text \<open>How a call of either compressDocuments ends.\<close>

lemma compressDocuments_cases:
  assumes "compressDocuments_Qwen h s (Some documents) query = (res, s', reqs)
         \<or> compressDocuments h s (Some documents) query = (res, s', reqs)"
  shows "(s' = s \<and> ((documents = [] \<and> res = Inr []) \<or> (\<exists>e. res = Inl e)))
       \<or> (\<exists>results rq. (rerankQwen h s documents query = (Inr results, rq)
                        \<or> rerank h s documents query = (Inr results, rq))
                      \<and> documents \<noteq> [] \<and> finalResults documents results s = (res, s'))"
  using assms
proof
  assume run: "compressDocuments_Qwen h s (Some documents) query = (res, s', reqs)"
  show ?thesis
  proof (cases "documents = []")
    case True
    with run show ?thesis by (simp add: compressDocuments_Qwen_def)
  next
    case False
    obtain r rq where rr: "rerankQwen h s documents query = (r, rq)"
      by (cases "rerankQwen h s documents query")
    show ?thesis
    proof (cases r)
      case (Inl e)
      with run rr False show ?thesis by (auto simp: compressDocuments_Qwen_def)
    next
      case (Inr results)
      with run rr False have "finalResults documents results s = (res, s')"
        by (simp add: compressDocuments_Qwen_def split: prod.splits)
      with rr Inr False show ?thesis by blast
    qed
  qed
next
  assume run: "compressDocuments h s (Some documents) query = (res, s', reqs)"
  show ?thesis
  proof (cases "documents = []")
    case True
    with run show ?thesis by (simp add: compressDocuments_def)
  next
    case False
    obtain r rq where rr: "rerank h s documents query = (r, rq)"
      by (cases "rerank h s documents query")
    show ?thesis
    proof (cases r)
      case (Inl e)
      with run rr False show ?thesis by (auto simp: compressDocuments_def)
    next
      case (Inr results)
      with run rr False have "finalResults documents results s = (res, s')"
        by (simp add: compressDocuments_def split: prod.splits)
      with rr Inr False show ?thesis by blast
    qed
  qed
qed

subsection \<open>What \<open>compressDocuments\<close> returns\<close>

lemma example_rerankQwen_negative:
  "fst (rerankQwen (grading_host (- 1)) example_store [0, 1, 2, 3] example_query)
   = Inr [\<lparr>index = Fin 1, relevanceScore = Num (Fin 1)\<rparr>,
          \<lparr>index = Fin 3, relevanceScore = Num (Fin 1)\<rparr>,
          \<lparr>index = Fin 0, relevanceScore = Num (Fin 0)\<rparr>]"
  by (simp add: rerankQwen_def rerankCall_def grading_host_def example_host_def example_grader_def
      example_store_def example_query_def
      enumerate_eq_zip upt_rec grader_prompt_def chat_reply_def bindE_def answer_of_def opt_prop_def score_of_def
      js_trim_def strip_spaces.simps space_len_def wide_spaces_def is_space_def toLowerCase_def lower_char_def js_sort_def by_score_desc_def js_slice0_def
      request_headers_def str_or_def rerank_baseUrl_def strip_trailing_slashes_def Let_def)

lemma example_finalResults:
  "finalResults [0, 1, 2, 3]
     [\<lparr>index = Fin 1, relevanceScore = Num (Fin 1)\<rparr>,
      \<lparr>index = Fin 3, relevanceScore = Num (Fin 1)\<rparr>,
      \<lparr>index = Fin 0, relevanceScore = Num (Fin 0)\<rparr>] example_store
   = (Inr [1, 3, 0], example_store_after)"
  by (simp add: js_index_def attach_def ensure_metadata_def set_score_def example_store_def
      example_store_after_def fun_eq_iff)

lemma example_compressDocuments_Qwen:
  "fst (compressDocuments_Qwen (grading_host 3) example_store (Some [0, 1, 2, 3]) example_query) = Inr [1, 3, 0] \<and>
   fst (snd (compressDocuments_Qwen (grading_host 3) example_store (Some [0, 1, 2, 3]) example_query))
     = example_store_after"
  by (simp add: compressDocuments_Qwen_def example_rerankQwen example_finalResults del: One_nat_def finalResults.simps)

lemma example_compressDocuments_Qwen_negative:
  "fst (compressDocuments_Qwen (grading_host (- 1)) example_store (Some [0, 1, 2, 3]) example_query)
     = Inr [1, 3, 0] \<and>
   fst (snd (compressDocuments_Qwen (grading_host (- 1)) example_store (Some [0, 1, 2, 3]) example_query))
     = example_store_after"
proof -
  obtain rq where "rerankQwen (grading_host (- 1)) example_store [0, 1, 2, 3] example_query
     = (Inr [\<lparr>index = Fin 1, relevanceScore = Num (Fin 1)\<rparr>,
             \<lparr>index = Fin 3, relevanceScore = Num (Fin 1)\<rparr>,
             \<lparr>index = Fin 0, relevanceScore = Num (Fin 0)\<rparr>], rq)"
    using example_rerankQwen_negative by (metis prod.collapse)
  then show ?thesis
    by (simp add: compressDocuments_Qwen_def example_finalResults del: One_nat_def finalResults.simps)
qed

text \<open>
  Where \<open>topN\<close> is not negative: for a non-empty document list, whenever
  \<^verbatim>\<open>compressDocuments\<close> of a node returns, it returns at most \<open>topN\<close> documents, and
  every returned document has a metadata object with a \<^verbatim>\<open>relevanceScore\<close> entry; where the
  document had no metadata, the object is a new one that holds this entry only.
\<close>

lemma compressDocuments_topN:
  assumes "documents \<noteq> []" and "0 \<le> topN h"
    and "compressDocuments_Qwen h s (Some documents) query = (Inr out, s', reqs)
       \<or> compressDocuments h s (Some documents) query = (Inr out, s', reqs)"
  shows "int (length out) \<le> topN h \<and>
         (\<forall>d \<in> set out. \<exists>m. metadata (docs s' d) = Some m \<and> metas s' m ''relevanceScore'' \<noteq> None \<and>
              (metadata (docs s d) = None \<longrightarrow> limit s \<le> m \<and> dom (metas s' m) = {''relevanceScore''}))"
proof -
  from compressDocuments_cases [OF assms(3)]
  have "out = [] \<or> (\<exists>results rq.
        (rerankQwen h s documents query = (Inr results, rq) \<or> rerank h s documents query = (Inr results, rq))
        \<and> finalResults documents results s = (Inr out, s'))"
    by auto
  then show ?thesis
  proof
    assume "out = []"
    with assms(2) show ?thesis by simp
  next
    assume "\<exists>results rq.
        (rerankQwen h s documents query = (Inr results, rq) \<or> rerank h s documents query = (Inr results, rq))
        \<and> finalResults documents results s = (Inr out, s')"
    then obtain results rq where
      rr: "rerankQwen h s documents query = (Inr results, rq) \<or> rerank h s documents query = (Inr results, rq)"
      and fin: "finalResults documents results s = (Inr out, s')"
      by blast
    from rr have "int (length results) \<le> topN h"
    proof
      assume "rerankQwen h s documents query = (Inr results, rq)"
      from rerankQwen_length [OF this assms(2)] show ?thesis .
    next
      assume "rerank h s documents query = (Inr results, rq)"
      from rerank_length [OF this assms(2)] show ?thesis .
    qed
    with finalResults_length [OF fin] have len: "int (length out) \<le> topN h" by simp
    have each: "\<exists>m. metadata (docs s' d) = Some m \<and> metas s' m ''relevanceScore'' \<noteq> None \<and>
              (metadata (docs s d) = None \<longrightarrow> limit s \<le> m \<and> dom (metas s' m) = {''relevanceScore''})"
      if "d \<in> set out" for d
    proof -
      from finalResults_scored [OF fin that] obtain m where
        m: "metadata (docs s' d) = Some m" "metas s' m ''relevanceScore'' \<noteq> None" by blast
      have "limit s \<le> m \<and> dom (metas s' m) = {''relevanceScore''}" if none: "metadata (docs s d) = None"
      proof -
        from finalResults_created [OF fin none m(1)] have lim: "limit s \<le> m" "m < limit s'" by simp_all
        from finalResults_fresh [OF fin lim] lim(1) show ?thesis by simp
      qed
      with m show ?thesis by (intro exI [of _ m] conjI impI) simp_all
    qed
    show ?thesis
    proof (intro conjI ballI)
      show "int (length out) \<le> topN h" by (rule len)
    next
      fix d assume "d \<in> set out"
      then show "\<exists>m. metadata (docs s' d) = Some m \<and> metas s' m ''relevanceScore'' \<noteq> None \<and>
              (metadata (docs s d) = None \<longrightarrow> limit s \<le> m \<and> dom (metas s' m) = {''relevanceScore''})"
        by (rule each)
    qed
  qed
qed

lemma compressDocuments_topN_example:
  "[0, 1, 2, 3] \<noteq> ([] :: ref list) \<and> 0 \<le> topN (grading_host 3) \<and>
   fst (compressDocuments_Qwen (grading_host 3) example_store (Some [0, 1, 2, 3]) example_query) = Inr [1, 3, 0] \<and>
   int (length [1, 3, 0 :: ref]) \<le> topN (grading_host 3) \<and>
   metadata (docs example_store_after 3) = Some 1 \<and>
   metas example_store_after 1 ''relevanceScore'' = Some (Num (Fin 1))"
proof -
  have ne: "[0, 1, 2, 3] \<noteq> ([] :: ref list)" by simp
  have top: "0 \<le> topN (grading_host 3)" by (simp add: grading_host_def example_host_def)
  have out: "fst (compressDocuments_Qwen (grading_host 3) example_store (Some [0, 1, 2, 3]) example_query)
      = Inr [1, 3, 0]"
    by (rule example_compressDocuments_Qwen [THEN conjunct1])
  then obtain s' reqs where
    run: "compressDocuments_Qwen (grading_host 3) example_store (Some [0, 1, 2, 3]) example_query
      = (Inr [1, 3, 0], s', reqs)"
    by (metis prod.collapse)
  have len: "int (length [1, 3, 0 :: ref]) \<le> topN (grading_host 3)"
    by (rule compressDocuments_topN [OF ne top disjI1 [OF run], THEN conjunct1])
  have m: "metadata (docs example_store_after 3) = Some 1"
    by (simp add: example_store_after_def)
  have sc: "metas example_store_after 1 ''relevanceScore'' = Some (Num (Fin 1))"
    by (simp add: example_store_after_def)
  from ne top out len m sc show ?thesis by (intro conjI)
qed

text \<open>
  C1.  The nodes clamp \<open>topN\<close> from above only.  With \<open>topN = -1\<close> and the four example
  documents the classification node computes \<^verbatim>\<open>Math.min(-1, 4) = -1\<close>, and
  \<^verbatim>\<open>sorted.slice(0, -1)\<close> drops the last result only: three documents come back, each
  with its score, where the parameter is described as the maximum number of documents to
  return and the comment on the line says that it limits to \<open>topN\<close>.
\<close>

theorem compressDocuments_topN_negative:
  "topN (grading_host (- 1)) = - 1 \<and>
   fst (compressDocuments_Qwen (grading_host (- 1)) example_store (Some [0, 1, 2, 3]) example_query)
     = Inr [1, 3, 0] \<and>
   fst (snd (compressDocuments_Qwen (grading_host (- 1)) example_store (Some [0, 1, 2, 3]) example_query))
     = example_store_after"
proof -
  have "topN (grading_host (- 1)) = - 1"
    by (simp add: grading_host_def example_host_def)
  with example_compressDocuments_Qwen_negative show ?thesis by (intro conjI) simp_all
qed

subsection \<open>The frame of \<open>compressDocuments\<close>\<close>

lemma js_index_Some:
  assumes "js_index xs n = Some x"
  shows "\<exists>i < length xs. n = Fin (of_nat i) \<and> x = xs ! i"
proof -
  from assms obtain r where r: "n = Fin r" "r = of_int \<lfloor>r\<rfloor>" "0 \<le> r" "\<lfloor>r\<rfloor> < int (length xs)" "x = xs ! nat \<lfloor>r\<rfloor>"
    by (auto simp: js_index_def split: number.splits if_splits)
  from r(3) have "0 \<le> \<lfloor>r\<rfloor>" by simp
  then have "of_int \<lfloor>r\<rfloor> = (of_nat (nat \<lfloor>r\<rfloor>) :: rat)" by simp
  with r(2) have "r = of_nat (nat \<lfloor>r\<rfloor>)" by simp
  moreover from r(4) \<open>0 \<le> \<lfloor>r\<rfloor>\<close> have "nat \<lfloor>r\<rfloor> < length xs" by (simp add: nat_less_iff)
  ultimately show ?thesis using r(1,5) by blast
qed

lemma js_index_nat: "i < length xs \<Longrightarrow> js_index xs (Fin (of_nat i)) = Some (xs ! i)"
  by (simp add: js_index_def)

lemma finalResults_subset:
  assumes "finalResults ds rs s = (Inr out, s')" "d \<in> set out"
  shows "d \<in> set ds"
proof -
  from looked_up_Inr [OF assms(1)] assms(2) have "d \<in> looked_up ds rs" by simp
  then obtain r :: rerank_result where "js_index ds (index r) = Some d"
    unfolding looked_up_def by blast
  from js_index_Some [OF this] show ?thesis by auto
qed

lemma example_aliased_rerankQwen:
  "fst (rerankQwen (grading_host 1) aliased_store [0, 1] example_query)
     = Inr [\<lparr>index = Fin 0, relevanceScore = Num (Fin 1)\<rparr>]"
  by (simp add: rerankQwen_def rerankCall_def grading_host_def example_host_def example_grader_def
      aliased_store_def example_query_def
      enumerate_eq_zip upt_rec grader_prompt_def chat_reply_def bindE_def answer_of_def opt_prop_def score_of_def
      js_trim_def strip_spaces.simps space_len_def wide_spaces_def is_space_def
      toLowerCase_def lower_char_def js_sort_def by_score_desc_def js_slice0_def
      request_headers_def str_or_def rerank_baseUrl_def strip_trailing_slashes_def Let_def)

lemma example_aliased_finalResults:
  "finalResults [0, 1] [\<lparr>index = Fin 0, relevanceScore = Num (Fin 1)\<rparr>] aliased_store
     = (Inr [0], aliased_store\<lparr>metas := (metas aliased_store)
                                  (0 := [''source'' \<mapsto> Str ''wiki'', ''relevanceScore'' \<mapsto> Num (Fin 1)])\<rparr>)"
  by (simp add: js_index_def attach_def ensure_metadata_def set_score_def aliased_store_def fun_eq_iff)

lemma example_aliased_compressDocuments:
  "fst (compressDocuments_Qwen (grading_host 1) aliased_store (Some [0, 1]) example_query) = Inr [0] \<and>
   fst (snd (compressDocuments_Qwen (grading_host 1) aliased_store (Some [0, 1]) example_query))
     = aliased_store\<lparr>metas := (metas aliased_store)
                        (0 := [''source'' \<mapsto> Str ''wiki'', ''relevanceScore'' \<mapsto> Num (Fin 1)])\<rparr>"
proof -
  obtain rq where "rerankQwen (grading_host 1) aliased_store [0, 1] example_query
     = (Inr [\<lparr>index = Fin 0, relevanceScore = Num (Fin 1)\<rparr>], rq)"
    using example_aliased_rerankQwen by (metis prod.collapse)
  then show ?thesis
    by (simp add: compressDocuments_Qwen_def example_aliased_finalResults del: One_nat_def finalResults.simps)
qed

lemma looked_up_subset: "d \<in> looked_up ds rs \<Longrightarrow> d \<in> set ds"
proof -
  assume "d \<in> looked_up ds rs"
  then obtain r :: rerank_result where "js_index ds (index r) = Some d"
    unfolding looked_up_def by blast
  from js_index_Some [OF this] show ?thesis by auto
qed

text \<open>
  The three ways a call of \<^verbatim>\<open>compressDocuments\<close> on a list goes: the list is empty; the
  reranker throws; the reranker returns and the loop over its results runs.
\<close>

lemma compressDocuments_run:
  assumes "(compressDocuments_Qwen h s (Some documents) query = (res, s', reqs)
              \<and> reranked = fst (rerankQwen h s documents query))
         \<or> (compressDocuments h s (Some documents) query = (res, s', reqs)
              \<and> reranked = fst (rerank h s documents query))"
  shows "(documents = [] \<and> res = Inr [] \<and> s' = s)
       \<or> (documents \<noteq> [] \<and> (\<exists>e. reranked = Inl e \<and> res = Inl e \<and> s' = s))
       \<or> (documents \<noteq> [] \<and> (\<exists>results. reranked = Inr results \<and> finalResults documents results s = (res, s')))"
  using assms
proof
  assume a: "compressDocuments_Qwen h s (Some documents) query = (res, s', reqs)
              \<and> reranked = fst (rerankQwen h s documents query)"
  then have run: "compressDocuments_Qwen h s (Some documents) query = (res, s', reqs)" by simp
  show ?thesis
  proof (cases "documents = []")
    case True
    with run show ?thesis by (simp add: compressDocuments_Qwen_def)
  next
    case False
    obtain r rq where rr: "rerankQwen h s documents query = (r, rq)"
      by (cases "rerankQwen h s documents query")
    with a have red: "reranked = r" by simp
    show ?thesis
    proof (cases r)
      case (Inl e)
      with run rr False red show ?thesis by (simp add: compressDocuments_Qwen_def)
    next
      case (Inr results)
      with run rr False have "finalResults documents results s = (res, s')"
        by (simp add: compressDocuments_Qwen_def split: prod.splits)
      with red Inr False show ?thesis by simp
    qed
  qed
next
  assume a: "compressDocuments h s (Some documents) query = (res, s', reqs)
              \<and> reranked = fst (rerank h s documents query)"
  then have run: "compressDocuments h s (Some documents) query = (res, s', reqs)" by simp
  show ?thesis
  proof (cases "documents = []")
    case True
    with run show ?thesis by (simp add: compressDocuments_def)
  next
    case False
    obtain r rq where rr: "rerank h s documents query = (r, rq)"
      by (cases "rerank h s documents query")
    with a have red: "reranked = r" by simp
    show ?thesis
    proof (cases r)
      case (Inl e)
      with run rr False red show ?thesis by (simp add: compressDocuments_def)
    next
      case (Inr results)
      with run rr False have "finalResults documents results s = (res, s')"
        by (simp add: compressDocuments_def split: prod.splits)
      with red Inr False show ?thesis by simp
    qed
  qed
qed

text \<open>
  C10.  The frame of \<^verbatim>\<open>compressDocuments\<close>, for every node, whether it returns or throws
  part-way.  \<open>reranked\<close> is what the node's reranker gives on the documents.

  For an empty list, and when the reranker throws, the store is as it was.  When the
  function returns, the returned list is \<^verbatim>\<open>documents[result.index]\<close> for each result in
  turn: the very objects of the caller, the selected documents.  No document changes its text
  or any further property.  A metadata object that a document had stays the metadata object of
  that document; a document that had none and has one afterwards got a new object, which holds
  the \<^verbatim>\<open>relevanceScore\<close> entry and nothing else.  In every metadata object that existed
  before, every entry other than \<^verbatim>\<open>relevanceScore\<close> is as it was.  A document that no result
  names is unchanged as an object: its text and the metadata object it refers to.  A metadata
  object that existed before and belongs to no document that a result names is unchanged.
  Nothing is said of the \<^verbatim>\<open>relevanceScore\<close> entry of a metadata object that a selected document
  shares with other documents: it is written through the selected document and read through
  all of them.
\<close>

theorem compressDocuments_frame:
  assumes "(compressDocuments_Qwen h s (Some documents) query = (res, s', reqs)
              \<and> reranked = fst (rerankQwen h s documents query))
         \<or> (compressDocuments h s (Some documents) query = (res, s', reqs)
              \<and> reranked = fst (rerank h s documents query))"
  shows "(documents = [] \<longrightarrow> res = Inr [] \<and> s' = s) \<and>
         (\<forall>e. documents \<noteq> [] \<longrightarrow> reranked = Inl e \<longrightarrow> res = Inl e \<and> s' = s) \<and>
         (\<forall>results out. documents \<noteq> [] \<longrightarrow> reranked = Inr results \<longrightarrow> res = Inr out \<longrightarrow>
            map Some out = map (\<lambda>r. js_index documents (index r)) results \<and>
            set out = looked_up documents results) \<and>
         (\<forall>d. pageContent (docs s' d) = pageContent (docs s d) \<and> doc.more (docs s' d) = doc.more (docs s d)) \<and>
         (\<forall>d m. metadata (docs s d) = Some m \<longrightarrow> metadata (docs s' d) = Some m) \<and>
         (\<forall>d m. metadata (docs s d) = None \<longrightarrow> metadata (docs s' d) = Some m \<longrightarrow>
                limit s \<le> m \<and> dom (metas s' m) = {''relevanceScore''}) \<and>
         (\<forall>m k. m < limit s \<longrightarrow> k \<noteq> ''relevanceScore'' \<longrightarrow> metas s' m k = metas s m k) \<and>
         (\<forall>results. documents \<noteq> [] \<longrightarrow> reranked = Inr results \<longrightarrow>
            (\<forall>d \<in> looked_up documents results. d \<in> set documents) \<and>
            (\<forall>d. d \<notin> looked_up documents results \<longrightarrow> docs s' d = docs s d) \<and>
            (\<forall>m. m < limit s \<longrightarrow> (\<forall>d \<in> looked_up documents results. metadata (docs s d) \<noteq> Some m) \<longrightarrow>
                 metas s' m = metas s m))"
proof -
  from compressDocuments_run [OF assms]
  consider (empty) "documents = []" "res = Inr []" "s' = s"
    | (thrown) e where "documents \<noteq> []" "reranked = Inl e" "res = Inl e" "s' = s"
    | (looped) results where "documents \<noteq> []" "reranked = Inr results"
        "finalResults documents results s = (res, s')"
    by blast
  then show ?thesis
  proof cases
    case empty
    then show ?thesis by simp
  next
    case thrown
    then show ?thesis by simp
  next
    case looped
    note fin = looped(3)
    have 1: "documents = [] \<longrightarrow> res = Inr [] \<and> s' = s"
      using looped(1) by simp
    have 2: "\<forall>e. documents \<noteq> [] \<longrightarrow> reranked = Inl e \<longrightarrow> res = Inl e \<and> s' = s"
      using looped(2) by simp
    have 3: "\<forall>results out. documents \<noteq> [] \<longrightarrow> reranked = Inr results \<longrightarrow> res = Inr out \<longrightarrow>
            map Some out = map (\<lambda>r. js_index documents (index r)) results \<and>
            set out = looked_up documents results"
    proof (intro allI impI)
      fix rs out assume "reranked = Inr rs" "res = Inr out"
      with looped(2) fin have f: "finalResults documents rs s = (Inr out, s')" by simp
      from finalResults_Inr [OF f] looked_up_Inr [OF f]
      show "map Some out = map (\<lambda>r. js_index documents (index r)) rs \<and>
            set out = looked_up documents rs" by simp
    qed
    have 4: "\<forall>d. pageContent (docs s' d) = pageContent (docs s d) \<and> doc.more (docs s' d) = doc.more (docs s d)"
      using finalResults_content [OF fin] by simp
    have 5: "\<forall>d m. metadata (docs s d) = Some m \<longrightarrow> metadata (docs s' d) = Some m"
      using finalResults_metadata_kept [OF fin] by simp
    have 6: "\<forall>d m. metadata (docs s d) = None \<longrightarrow> metadata (docs s' d) = Some m \<longrightarrow>
                limit s \<le> m \<and> dom (metas s' m) = {''relevanceScore''}"
    proof (intro allI impI)
      fix d m
      assume "metadata (docs s d) = None" "metadata (docs s' d) = Some m"
      from finalResults_created [OF fin this] have lim: "limit s \<le> m" "m < limit s'" by simp_all
      from finalResults_fresh [OF fin lim] lim(1)
      show "limit s \<le> m \<and> dom (metas s' m) = {''relevanceScore''}" by simp
    qed
    have 7: "\<forall>m k. m < limit s \<longrightarrow> k \<noteq> ''relevanceScore'' \<longrightarrow> metas s' m k = metas s m k"
      using finalResults_keys [OF fin] by simp
    have 8: "\<forall>results. documents \<noteq> [] \<longrightarrow> reranked = Inr results \<longrightarrow>
            (\<forall>d \<in> looked_up documents results. d \<in> set documents) \<and>
            (\<forall>d. d \<notin> looked_up documents results \<longrightarrow> docs s' d = docs s d) \<and>
            (\<forall>m. m < limit s \<longrightarrow> (\<forall>d \<in> looked_up documents results. metadata (docs s d) \<noteq> Some m) \<longrightarrow>
                 metas s' m = metas s m)"
    proof (intro allI impI conjI ballI)
      fix rs d assume "d \<in> looked_up documents rs"
      then show "d \<in> set documents" by (rule looked_up_subset)
    next
      fix rs d assume "reranked = Inr rs" "d \<notin> looked_up documents rs"
      with looped(2) have "d \<notin> looked_up documents results" by simp
      from finalResults_other [OF fin this] show "docs s' d = docs s d" .
    next
      fix rs m assume "reranked = Inr rs" "m < limit s"
        "\<forall>d \<in> looked_up documents rs. metadata (docs s d) \<noteq> Some m"
      with looped(2) have "m < limit s" "\<forall>d \<in> looked_up documents results. metadata (docs s d) \<noteq> Some m"
        by simp_all
      from finalResults_untouched [OF fin this] show "metas s' m = metas s m" .
    qed
    from 1 2 3 4 5 6 7 8 show ?thesis by (intro conjI)
  qed
qed

theorem compressDocuments_frame_witness:
  "fst (compressDocuments_Qwen (grading_host 3) example_store (Some [0, 1, 2, 3]) example_query) = Inr [1, 3, 0] \<and>
   fst (snd (compressDocuments_Qwen (grading_host 3) example_store (Some [0, 1, 2, 3]) example_query))
     = example_store_after \<and>
   looked_up [0, 1, 2, 3] (projr (fst (rerankQwen (grading_host 3) example_store [0, 1, 2, 3] example_query)))
     = set [1, 3, 0] \<and>
   2 \<notin> set [1, 3, 0 :: ref] \<and>
   docs example_store_after 2 = docs example_store 2 \<and>
   pageContent (docs example_store_after 1) = pageContent (docs example_store 1) \<and>
   metadata (docs example_store 1) = Some 0 \<and> metadata (docs example_store_after 1) = Some 0 \<and>
   (0::ref) < limit example_store \<and>
   metas example_store_after 0 ''source'' = metas example_store 0 ''source'' \<and>
   metadata (docs example_store 3) = None \<and> metadata (docs example_store_after 3) = Some 1 \<and>
   dom (metas example_store_after 1) = {''relevanceScore''}"
proof -
  note ex = example_compressDocuments_Qwen
  obtain reqs where
    run: "compressDocuments_Qwen (grading_host 3) example_store (Some [0, 1, 2, 3]) example_query
      = (Inr [1, 3, 0], example_store_after, reqs)"
    using ex by (metis prod.collapse)
  define results where
    "results = projr (fst (rerankQwen (grading_host 3) example_store [0, 1, 2, 3] example_query))"
  have red: "fst (rerankQwen (grading_host 3) example_store [0, 1, 2, 3] example_query) = Inr results"
    unfolding results_def example_rerankQwen by simp
  have ne: "[0, 1, 2, 3] \<noteq> ([] :: ref list)" by simp
  note fr = compressDocuments_frame [OF disjI1 [OF conjI [OF run refl]]]
  have sel: "looked_up [0, 1, 2, 3] results = set [1, 3, 0]"
    using fr ne red by simp
  have notin: "2 \<notin> set [1, 3, 0 :: ref]" by simp
  have a: "docs example_store_after 2 = docs example_store 2"
    using fr ne red sel notin by simp
  have b: "pageContent (docs example_store_after 1) = pageContent (docs example_store 1)"
    using fr by simp
  have c0: "metadata (docs example_store 1) = Some 0" by (simp add: example_store_def)
  have c: "metadata (docs example_store_after 1) = Some 0"
    using fr c0 by simp
  have d0: "(0::ref) < limit example_store" by (simp add: example_store_def)
  have d: "metas example_store_after 0 ''source'' = metas example_store 0 ''source''"
    using fr d0 by simp
  have e0: "metadata (docs example_store 3) = None" by (simp add: example_store_def)
  have e1: "metadata (docs example_store_after 3) = Some 1" by (simp add: example_store_after_def)
  have e: "dom (metas example_store_after 1) = {''relevanceScore''}"
    using fr e0 e1 by simp
  from ex [THEN conjunct1] ex [THEN conjunct2] sel [unfolded results_def] notin a b c0 c d0 d e0 e1 e
  show ?thesis
    by (intro conjI)
qed

text \<open>
  A metadata object can belong to two documents.  Of two documents that share theirs the
  classification node returns the first only, and the \<^verbatim>\<open>relevanceScore\<close> it writes is in the
  metadata of the second, which is not returned.
\<close>

theorem compressDocuments_shared_metadata:
  "fst (compressDocuments_Qwen (grading_host 1) aliased_store (Some [0, 1]) example_query) = Inr [0] \<and>
   1 \<notin> set [0 :: ref] \<and>
   metadata (docs aliased_store 1) = Some 0 \<and>
   metas aliased_store 0 ''relevanceScore'' = None \<and>
   metadata (docs (fst (snd (compressDocuments_Qwen (grading_host 1) aliased_store (Some [0, 1]) example_query))) 1)
     = Some 0 \<and>
   metas (fst (snd (compressDocuments_Qwen (grading_host 1) aliased_store (Some [0, 1]) example_query))) 0
     ''relevanceScore'' = Some (Num (Fin 1))"
proof -
  note ex = example_aliased_compressDocuments
  have a: "1 \<notin> set [0 :: ref]" by simp
  have b: "metadata (docs aliased_store 1) = Some 0" by (simp add: aliased_store_def)
  have c: "metas aliased_store 0 ''relevanceScore'' = None" by (simp add: aliased_store_def)
  have d: "metadata (docs (fst (snd (compressDocuments_Qwen (grading_host 1) aliased_store (Some [0, 1]) example_query))) 1)
     = Some 0"
    unfolding ex [THEN conjunct2] by (simp add: aliased_store_def)
  have e: "metas (fst (snd (compressDocuments_Qwen (grading_host 1) aliased_store (Some [0, 1]) example_query))) 0
     ''relevanceScore'' = Some (Num (Fin 1))"
    unfolding ex [THEN conjunct2] by simp
  from ex [THEN conjunct1] a b c d e show ?thesis by (intro conjI)
qed

subsection \<open>The list-ranking parser\<close>

lemma match_array_brackets:
  assumes "CHR ''['' \<notin> set pre" "CHR '']'' \<notin> set post"
  shows "match_array (pre @ CHR ''['' # inner @ CHR '']'' # post) = Some (CHR ''['' # inner @ [CHR '']''])"
proof -
  from assms(1) have 1: "dropWhile (\<lambda>c. c \<noteq> CHR ''['') (pre @ CHR ''['' # inner @ CHR '']'' # post)
      = CHR ''['' # inner @ CHR '']'' # post"
    by (auto simp: dropWhile_append3)
  from assms(2) have 2: "dropWhile (\<lambda>c. c \<noteq> CHR '']'') (rev post @ CHR '']'' # rev inner @ [CHR ''[''])
      = CHR '']'' # rev inner @ [CHR ''['']"
    by (auto simp: dropWhile_append3)
  show ?thesis
    unfolding match_array_def 1 by (simp add: 2)
qed

lemma example_ranking_text_parts:
  "example_ranking_text = ''Some text '' @ CHR ''['' # example_entries_text @ CHR '']'' # '' trailing''"
  by (simp add: example_ranking_text_def example_array_text_def)

lemma example_match: "match_array example_ranking_text = Some example_array_text"
  unfolding example_ranking_text_parts example_array_text_def
  by (rule match_array_brackets) simp_all

lemma example_lex: "lex example_array_text =
   Some [TLBracket, TLBrace, TLit (Str ''index''), TColon, TLit (Num (Fin 2)), TComma,
         TLit (Str ''score''), TColon, TLit (Num (to_double (9/10))), TRBrace, TComma,
         TLBrace, TLit (Str ''index''), TColon, TLit (Num (Fin 1)), TComma,
         TLit (Str ''score''), TColon, TLit (Num (to_double (4/10))), TRBrace, TRBracket]"
  by (simp add: example_array_text_def example_entries_text_def quoted_def is_json_ws_def is_digit_def is_numchar_def
      json_number_def decimal_value_def
      digits_val_def digit_val_def opt_exponent_def)

lemma example_parse: "JSON_parse example_array_text =
   Some (Arr [Obj [(''index'', Num (Fin 2)), (''score'', Num (to_double (9/10)))],
              Obj [(''index'', Num (Fin 1)), (''score'', Num (to_double (4/10)))]])"
  unfolding JSON_parse_def example_lex by simp

lemma rerank_ranking_host:
  "rerank (ranking_host t n) s documents query
     = (parse_rankings (ranking_host t n) (generate_reply t),
        [\<lparr>req_method = ''POST'', url = ''http://localhost:11434/api/generate'',
          headers = [(''Content-Type'', ''application/json'')],
          body = Generate ''dengcao/Qwen3-Reranker-4B:Q5_K_M''
                   (ranking_prompt query
                      (join [CHR 0x0A, CHR 0x0A]
                         (map (\<lambda>(i, d). ''Document '' @ show_nat (i + 1) @ '': '' @ pageContent (docs s d))
                            (enumerate 0 documents)))) False\<rparr>])"
  by (simp add: rerank_def ranking_host_def example_host_def reply_with_def bindE_def Let_def
      request_headers_def str_or_def rerank_baseUrl_def strip_trailing_slashes_def)

lemma topN_ranking_host: "topN (ranking_host t n) = n" "itemIndex (ranking_host t n) = 0"
  by (simp_all add: ranking_host_def example_host_def)

lemma reply_text_generate: "reply_text (generate_reply t) = Inr (if t = [] then generate_reply t else Str t)"
  by (simp add: reply_text_def generate_reply_def bindE_def)

lemma parse_rankings_array:
  assumes "t \<noteq> []" "match_array t = Some m" "JSON_parse m = Some (Arr es)"
  shows "parse_rankings h (generate_reply t)
       = mapE ranking_of (js_slice0 (min (topN h) (int (length es))) es)"
  using assms by (simp add: parse_rankings_def reply_text_generate bindE_def)

lemma parse_rankings_no_array:
  assumes "t \<noteq> []" "match_array t = None"
  shows "parse_rankings h (generate_reply t)
       = Inl (NodeOperationError ''Failed to parse reranker output.'' (Some (itemIndex h)))"
  using assms by (simp add: parse_rankings_def reply_text_generate bindE_def)

lemma parse_rankings_invalid_json:
  assumes "t \<noteq> []" "match_array t = Some m" "JSON_parse m = None"
  shows "parse_rankings h (generate_reply t)
       = Inl (NodeOperationError ''Invalid JSON in reranker response.'' (Some (itemIndex h)))"
  using assms by (simp add: parse_rankings_def reply_text_generate bindE_def)

lemma parse_rankings_empty: "parse_rankings h (generate_reply []) = Inl TypeError"
  unfolding parse_rankings_def reply_text_generate by (simp add: bindE_def generate_reply_def)

lemma example_rerank:
  "fst (rerank (ranking_host example_ranking_text 3) s documents query)
     = Inr [\<lparr>index = Fin 1, relevanceScore = Num (to_double (9/10))\<rparr>,
            \<lparr>index = Fin 0, relevanceScore = Num (to_double (4/10))\<rparr>]"
proof -
  have ne: "example_ranking_text \<noteq> []" by (simp add: example_ranking_text_def)
  show ?thesis
    unfolding rerank_ranking_host fst_conv parse_rankings_array [OF ne example_match example_parse]
    by (simp add: topN_ranking_host js_slice0_def ranking_of_def bindE_def)
qed


lemma get_prop_opt: "\<not> nullish v \<Longrightarrow> get_prop v k = Inr (opt_prop v k)"
  by (cases v) (simp_all add: nullish_def opt_prop_def split: option.splits)

lemma ranking_of_Inr:
  "\<not> nullish e \<Longrightarrow>
   ranking_of e = Inr \<lparr>index = num_sub (ToNumber (opt_prop e ''index'')) (Fin 1),
                       relevanceScore = opt_prop e ''score''\<rparr>"
  by (simp add: ranking_of_def get_prop_opt bindE_def)

lemma ranking_of_nullish: "nullish e \<Longrightarrow> ranking_of e = Inl TypeError"
  by (auto simp: ranking_of_def nullish_def bindE_def)


lemma set_js_slice0: "set (js_slice0 e xs) \<subseteq> set xs"
  unfolding js_slice0_def Let_def by (rule set_take_subset)



lemma index_minus_one:
  assumes "\<bar>k - 1\<bar> < 2 ^ 53"
  shows "num_sub (ToNumber (Num (Fin (of_int k)))) (Fin 1) = Fin (of_int (k - 1))"
proof -
  have "of_int k - (1 :: rat) = of_int (k - 1)" by simp
  then show ?thesis using to_double_int [OF assms] by simp
qed



text \<open>
  C5.  A reply whose text is empty has no bracketed array in it.  The empty text is falsy,
  so \<^verbatim>\<open>response.response || response.output || response\<close> is the response object itself,
  which has no \<^verbatim>\<open>match\<close>: the list-ranking reranker throws a \<^verbatim>\<open>TypeError\<close>, where a text
  without an array gives the operational error \<^verbatim>\<open>Failed to parse reranker output.\<close> and a
  bracketed part that is not JSON gives \<^verbatim>\<open>Invalid JSON in reranker response.\<close>, both with
  the item index.
\<close>

theorem rerank_empty_reply:
  "fst (rerank (ranking_host [] n) s documents query) = Inl TypeError \<and>
   fst (rerank (ranking_host ''no array here'' n) s documents query)
     = Inl (NodeOperationError ''Failed to parse reranker output.'' (Some 0)) \<and>
   fst (rerank (ranking_host ''[1,2,]'' n) s documents query)
     = Inl (NodeOperationError ''Invalid JSON in reranker response.'' (Some 0))"
proof -
  have a: "fst (rerank (ranking_host [] n) s documents query) = Inl TypeError"
    unfolding rerank_ranking_host fst_conv by (rule parse_rankings_empty)
  have "match_array ''no array here'' = None" by (simp add: match_array_def)
  then have b: "fst (rerank (ranking_host ''no array here'' n) s documents query)
     = Inl (NodeOperationError ''Failed to parse reranker output.'' (Some 0))"
    unfolding rerank_ranking_host fst_conv by (simp add: parse_rankings_no_array topN_ranking_host)
  have m: "match_array ''[1,2,]'' = Some ''[1,2,]''" by (simp add: match_array_def)
  have l: "lex ''[1,2,]'' = Some [TLBracket, TLit (Num (Fin 1)), TComma, TLit (Num (Fin 2)), TComma, TRBracket]"
    by (simp add: is_json_ws_def is_digit_def is_numchar_def json_number_def decimal_value_def
      digits_val_def digit_val_def opt_exponent_def)
  have p: "JSON_parse ''[1,2,]'' = None"
    unfolding JSON_parse_def l by simp
  have c: "fst (rerank (ranking_host ''[1,2,]'' n) s documents query)
     = Inl (NodeOperationError ''Invalid JSON in reranker response.'' (Some 0))"
    unfolding rerank_ranking_host fst_conv using parse_rankings_invalid_json [OF _ m p]
    by (simp add: topN_ranking_host)
  from a b c show ?thesis by (intro conjI)
qed


subsection \<open>The positions that the results name\<close>

lemma finalResults_lookups:
  "finalResults ds rs s = (res, s') \<Longrightarrow>
     ((\<forall>r \<in> set rs. js_index ds (index r) \<noteq> None) \<longrightarrow> (\<exists>out. res = Inr out)) \<and>
     ((\<exists>r \<in> set rs. js_index ds (index r) = None) \<longrightarrow> res = Inl TypeError)"
proof (induction rs arbitrary: s res s')
  case Nil
  then show ?case by auto
next
  case (Cons r rs)
  show ?case
  proof (cases "js_index ds (index r)")
    case None
    with Cons.prems show ?thesis by simp
  next
    case (Some d)
    obtain res1 s1 where rest: "finalResults ds rs (attach s d (relevanceScore r)) = (res1, s1)"
      by (cases "finalResults ds rs (attach s d (relevanceScore r))")
    note ih = Cons.IH [OF rest]
    show ?thesis
    proof (cases res1)
      case (Inl e)
      with Cons.prems Some rest have res: "res = Inl e" by simp
      from ih Inl have "\<exists>r \<in> set rs. js_index ds (index r) = None" by auto
      with ih Inl have "e = TypeError" by simp
      with res \<open>\<exists>r \<in> set rs. js_index ds (index r) = None\<close> show ?thesis by auto
    next
      case (Inr out)
      with Cons.prems Some rest have res: "res = Inr (d # out)" by simp
      from ih Inr have "\<forall>r \<in> set rs. js_index ds (index r) \<noteq> None" by auto
      with res Some show ?thesis by simp
    qed
  qed
qed

lemma rerankQwen_positions:
  assumes "rerankQwen h s documents query = (Inr out, rq)"
  shows "\<forall>r \<in> set out. \<exists>i < length documents. index r = Fin (of_nat i)"
proof
  fix r :: rerank_result
  assume r: "r \<in> set out"
  from rerankQwen_Inr [OF assms] obtain results :: "rerank_result list" where
    len: "length results = length documents" and
    idx: "\<forall>i < length documents. index (results ! i) = Fin (of_nat i) \<and> binary_score (results ! i)" and
    out: "out = js_slice0 (min (topN h) (int (length documents)))
                   (filter (\<lambda>r. relevanceScore r = Num (Fin 1)) results
                    @ filter (\<lambda>r. relevanceScore r = Num (Fin 0)) results)"
    by blast
  from r have "r \<in> set (js_slice0 (min (topN h) (int (length documents)))
                   (filter (\<lambda>r. relevanceScore r = Num (Fin 1)) results
                    @ filter (\<lambda>r. relevanceScore r = Num (Fin 0)) results))"
    unfolding out .
  from subsetD [OF set_js_slice0 this]
  have "r \<in> set results" by auto
  then obtain i where i: "i < length results" "results ! i = r"
    unfolding in_set_conv_nth by blast
  from i(1) len have "i < length documents" by simp
  moreover from idx this i(2) have "index r = Fin (of_nat i)" by auto
  ultimately show "\<exists>i < length documents. index r = Fin (of_nat i)" by blast
qed

lemma js_index_int:
  "js_index xs (Fin (of_int j)) \<noteq> None \<longleftrightarrow> 0 \<le> j \<and> j < int (length xs)"
  by (simp add: js_index_def)

lemma ranking_of_index:
  assumes "ranking_of e = Inr r"
  shows "index r = num_sub (ToNumber (opt_prop e ''index'')) (Fin 1)"
proof (cases "nullish e")
  case True
  with assms show ?thesis by (simp add: ranking_of_nullish)
next
  case False
  from ranking_of_Inr [OF this] assms show ?thesis by auto
qed

lemma out_of_range_lex:
  "lex out_of_range_text =
     Some [TLBracket, TLBrace, TLit (Str ''index''), TColon, TLit (Num (Fin 5)), TComma,
           TLit (Str ''score''), TColon, TLit (Num (to_double (9/10))), TRBrace, TRBracket]"
  by (simp add: out_of_range_text_def quoted_def is_json_ws_def is_digit_def is_numchar_def
      json_number_def decimal_value_def digits_val_def digit_val_def opt_exponent_def)

lemma out_of_range_parse:
  "JSON_parse out_of_range_text
     = Some (Arr [Obj [(''index'', Num (Fin 5)), (''score'', Num (to_double (9/10)))]])"
  unfolding JSON_parse_def out_of_range_lex by simp

lemma out_of_range_match: "match_array out_of_range_text = Some out_of_range_text"
proof -
  have "match_array ([] @ CHR ''['' # (''{'' @ quoted ''index'' @ '':5,'' @ quoted ''score'' @ '':0.9}'') @ CHR '']'' # [])
      = Some (CHR ''['' # (''{'' @ quoted ''index'' @ '':5,'' @ quoted ''score'' @ '':0.9}'') @ [CHR '']''])"
    by (rule match_array_brackets) simp_all
  then show ?thesis by (simp add: out_of_range_text_def)
qed

lemma out_of_range_rerank:
  "fst (rerank (ranking_host out_of_range_text n) s documents query)
     = (if n \<le> 0 then Inr [] else Inr [\<lparr>index = Fin 4, relevanceScore = Num (to_double (9/10))\<rparr>])"
proof -
  have ne: "out_of_range_text \<noteq> []" by (simp add: out_of_range_text_def)
  show ?thesis
    unfolding rerank_ranking_host fst_conv parse_rankings_array [OF ne out_of_range_match out_of_range_parse]
    by (simp add: topN_ranking_host js_slice0_def ranking_of_def bindE_def min_def max_def)
qed

text \<open>
  The list-ranking variant takes the index from the reply of the model as it comes.  For one
  document and the reply \<^verbatim>\<open>[{"index":5,"score":0.9}]\<close> the result has index 4, where the
  list has position 0 only, and \<^verbatim>\<open>compressDocuments\<close> throws a \<^verbatim>\<open>TypeError\<close> when it reads
  \<^verbatim>\<open>doc.metadata\<close> of \<^verbatim>\<open>documents[4]\<close>.
\<close>

theorem rerank_index_out_of_range:
  "fst (rerank (ranking_host out_of_range_text 3) example_store [0] example_query)
     = Inr [\<lparr>index = Fin 4, relevanceScore = Num (to_double (9/10))\<rparr>] \<and>
   js_index [0 :: ref] (Fin 4) = None \<and>
   fst (compressDocuments (ranking_host out_of_range_text 3) example_store (Some [0]) example_query)
     = Inl TypeError"
proof -
  have a: "fst (rerank (ranking_host out_of_range_text 3) example_store [0] example_query)
     = Inr [\<lparr>index = Fin 4, relevanceScore = Num (to_double (9/10))\<rparr>]"
    by (simp add: out_of_range_rerank)
  have b: "js_index [0 :: ref] (Fin 4) = None" by (simp add: js_index_def)
  obtain rq where "rerank (ranking_host out_of_range_text 3) example_store [0] example_query
     = (Inr [\<lparr>index = Fin 4, relevanceScore = Num (to_double (9/10))\<rparr>], rq)"
    using a by (metis prod.collapse)
  then have c: "fst (compressDocuments (ranking_host out_of_range_text 3) example_store (Some [0]) example_query)
     = Inl TypeError"
    by (simp add: compressDocuments_def b)
  from a b c show ?thesis by (intro conjI)
qed

text \<open>
  C7.  In the classification variant the index of every result is a position of the input
  list, so the lookup \<^verbatim>\<open>documents[result.index]\<close> finds a document.  In the list-ranking
  variant the index of a result is the index of the reply's entry minus one, unchecked: for
  an integer \<open>k\<close> in the reply it is \<open>k - 1\<close>, a position of the list exactly when \<open>k\<close> is
  between 1 and the number of documents.  In every node \<^verbatim>\<open>compressDocuments\<close> returns
  when every result names a position of the list, and throws a \<^verbatim>\<open>TypeError\<close> when one
  does not.
\<close>

theorem rerank_index_valid:
  assumes "(compressDocuments_Qwen h s (Some documents) query = (res, s', reqs)
              \<and> reranked = fst (rerankQwen h s documents query))
         \<or> (compressDocuments h s (Some documents) query = (res, s', reqs)
              \<and> reranked = fst (rerank h s documents query))"
  shows "(\<forall>results. fst (rerankQwen h s documents query) = Inr results \<longrightarrow>
            (\<forall>r \<in> set results. \<exists>i < length documents.
                index r = Fin (of_nat i) \<and> js_index documents (index r) = Some (documents ! i))) \<and>
         (\<forall>e r k. ranking_of e = Inr r \<longrightarrow> opt_prop e ''index'' = Num (Fin (of_int k)) \<longrightarrow>
            \<bar>k - 1\<bar> < 2 ^ 53 \<longrightarrow>
            index r = Fin (of_int (k - 1)) \<and>
            (js_index documents (index r) \<noteq> None \<longleftrightarrow> 1 \<le> k \<and> k \<le> int (length documents))) \<and>
         (\<forall>results. documents \<noteq> [] \<longrightarrow> reranked = Inr results \<longrightarrow>
            ((\<forall>r \<in> set results. js_index documents (index r) \<noteq> None) \<longrightarrow> (\<exists>out. res = Inr out)) \<and>
            ((\<exists>r \<in> set results. js_index documents (index r) = None) \<longrightarrow> res = Inl TypeError))"
proof -
  have 1: "\<forall>results. fst (rerankQwen h s documents query) = Inr results \<longrightarrow>
            (\<forall>r \<in> set results. \<exists>i < length documents.
                index r = Fin (of_nat i) \<and> js_index documents (index r) = Some (documents ! i))"
  proof (intro allI impI ballI)
    fix results and r :: rerank_result
    assume "fst (rerankQwen h s documents query) = Inr results" and r: "r \<in> set results"
    then obtain rq where "rerankQwen h s documents query = (Inr results, rq)"
      by (metis prod.collapse)
    from rerankQwen_positions [OF this] r obtain i where i: "i < length documents" "index r = Fin (of_nat i)"
      by blast
    from js_index_nat [OF i(1)] i
    show "\<exists>i < length documents. index r = Fin (of_nat i) \<and> js_index documents (index r) = Some (documents ! i)"
      by auto
  qed
  have 2: "\<forall>e r k. ranking_of e = Inr r \<longrightarrow> opt_prop e ''index'' = Num (Fin (of_int k)) \<longrightarrow>
            \<bar>k - 1\<bar> < 2 ^ 53 \<longrightarrow>
            index r = Fin (of_int (k - 1)) \<and>
            (js_index documents (index r) \<noteq> None \<longleftrightarrow> 1 \<le> k \<and> k \<le> int (length documents))"
  proof (intro allI impI)
    fix e and r :: rerank_result and k :: int
    assume e: "ranking_of e = Inr r" and k: "opt_prop e ''index'' = Num (Fin (of_int k))"
      and small: "\<bar>k - 1\<bar> < 2 ^ 53"
    from ranking_of_index [OF e] k index_minus_one [OF small]
    have idx: "index r = Fin (of_int (k - 1))" by simp
    have "js_index documents (Fin (of_int (k - 1))) \<noteq> None \<longleftrightarrow> 0 \<le> k - 1 \<and> k - 1 < int (length documents)"
      by (rule js_index_int)
    with idx show "index r = Fin (of_int (k - 1)) \<and>
            (js_index documents (index r) \<noteq> None \<longleftrightarrow> 1 \<le> k \<and> k \<le> int (length documents))"
      by auto
  qed
  have 3: "\<forall>results. documents \<noteq> [] \<longrightarrow> reranked = Inr results \<longrightarrow>
            ((\<forall>r \<in> set results. js_index documents (index r) \<noteq> None) \<longrightarrow> (\<exists>out. res = Inr out)) \<and>
            ((\<exists>r \<in> set results. js_index documents (index r) = None) \<longrightarrow> res = Inl TypeError)"
  proof (intro allI impI)
    fix results
    assume ne: "documents \<noteq> []" and red: "reranked = Inr results"
    from compressDocuments_run [OF assms] ne red
    have "finalResults documents results s = (res, s')" by auto
    from finalResults_lookups [OF this]
    show "((\<forall>r \<in> set results. js_index documents (index r) \<noteq> None) \<longrightarrow> (\<exists>out. res = Inr out)) \<and>
            ((\<exists>r \<in> set results. js_index documents (index r) = None) \<longrightarrow> res = Inl TypeError)" .
  qed
  from 1 2 3 show ?thesis by (intro conjI)
qed

lemma example_ranking_finalResults:
  "fst (finalResults [0, 1] [\<lparr>index = Fin 1, relevanceScore = Num (to_double (9/10))\<rparr>,
                             \<lparr>index = Fin 0, relevanceScore = Num (to_double (4/10))\<rparr>] example_store)
     = Inr [1, 0]"
  by (simp add: js_index_def split: prod.splits)

theorem rerank_index_valid_witness:
  "fst (rerank (ranking_host example_ranking_text 3) example_store [0, 1] example_query)
     = Inr [\<lparr>index = Fin 1, relevanceScore = Num (to_double (9/10))\<rparr>,
            \<lparr>index = Fin 0, relevanceScore = Num (to_double (4/10))\<rparr>] \<and>
   js_index [0, 1 :: ref] (Fin 1) = Some 1 \<and> js_index [0, 1 :: ref] (Fin 0) = Some 0 \<and>
   fst (compressDocuments (ranking_host example_ranking_text 3) example_store (Some [0, 1]) example_query)
     = Inr [1, 0] \<and>
   fst (compressDocuments (ranking_host example_ranking_text 3) example_store (Some [0, 1]) example_query)
     \<noteq> Inl TypeError"
proof -
  let ?h = "ranking_host example_ranking_text 3"
  let ?rs = "[\<lparr>index = Fin 1, relevanceScore = Num (to_double (9/10))\<rparr>,
              \<lparr>index = Fin 0, relevanceScore = Num (to_double (4/10))\<rparr>]"
  have rr: "fst (rerank ?h example_store [0, 1] example_query) = Inr ?rs"
    by (rule example_rerank)
  obtain res s' reqs where
    run: "compressDocuments ?h example_store (Some [0, 1]) example_query = (res, s', reqs)"
    by (metis prod.collapse)
  have a: "js_index [0, 1 :: ref] (Fin 1) = Some 1" by (simp add: js_index_def)
  have b: "js_index [0, 1 :: ref] (Fin 0) = Some 0" by (simp add: js_index_def)
  have ne: "[0, 1] \<noteq> ([] :: ref list)" by simp
  have ok: "\<forall>r \<in> set ?rs. js_index [0, 1 :: ref] (index r) \<noteq> None"
    using a b by simp
  from rerank_index_valid [OF disjI2 [OF conjI [OF run refl]], THEN conjunct2, THEN conjunct2] ne rr ok
  obtain out where out: "res = Inr out" by blast
  obtain rq where "rerank ?h example_store [0, 1] example_query = (Inr ?rs, rq)"
    using rr by (metis prod.collapse)
  then have "fst (compressDocuments ?h example_store (Some [0, 1]) example_query)
      = fst (finalResults [0, 1] ?rs example_store)"
    by (simp add: compressDocuments_def split: prod.splits del: finalResults.simps)
  then have c: "fst (compressDocuments ?h example_store (Some [0, 1]) example_query) = Inr [1, 0]"
    by (simp only: example_ranking_finalResults)
  from run out have d: "fst (compressDocuments ?h example_store (Some [0, 1]) example_query) \<noteq> Inl TypeError"
    by simp
  from rr a b c d show ?thesis by (intro conjI)
qed


subsection \<open>The model listers\<close>

lemma strip_trailing_slashes_replicate:
  "strip_trailing_slashes (b @ replicate k (CHR ''/'')) = strip_trailing_slashes b"
proof -
  have "dropWhile (\<lambda>c. c = CHR ''/'') (replicate k (CHR ''/'') @ rev b)
      = dropWhile (\<lambda>c. c = CHR ''/'') (rev b)"
    by (rule dropWhile_append2) simp
  then show ?thesis by (simp add: strip_trailing_slashes_def)
qed

lemma strip_trailing_slashes_last:
  "strip_trailing_slashes b \<noteq> [] \<Longrightarrow> last (strip_trailing_slashes b) \<noteq> CHR ''/''"
proof -
  assume "strip_trailing_slashes b \<noteq> []"
  then have ne: "dropWhile (\<lambda>c. c = CHR ''/'') (rev b) \<noteq> []"
    by (simp add: strip_trailing_slashes_def)
  then have "hd (dropWhile (\<lambda>c. c = CHR ''/'') (rev b)) \<noteq> CHR ''/''"
    using hd_dropWhile by blast
  with ne show ?thesis
    by (simp add: strip_trailing_slashes_def last_rev)
qed

lemma baseUrl_default:
  assumes "baseUrl c = None \<or> baseUrl c = Some []"
  shows "rerank_baseUrl c = ''http://localhost:11434''" "tags_baseUrl c = ''http://localhost:11434''"
    "models_baseUrl c = []"
  using assms by (auto simp: rerank_baseUrl_def tags_baseUrl_def models_baseUrl_def str_or_def strip_trailing_slashes_def)

lemma getModels_requests:
  "snd (getModels h) =
     [\<lparr>req_method = ''GET'', url = tags_baseUrl (getCredentials h ''ollamaApi'') @ ''/api/tags'',
       headers = request_headers (getCredentials h ''ollamaApi''), body = NoBody\<rparr>]"
  "snd (getModels_Qwen h) = snd (getModels h)"
  "snd (getModels_models h) =
     [\<lparr>req_method = ''GET'', url = models_baseUrl (getCredentials h ''ollamaApi'') @ ''/models'',
       headers = request_headers (getCredentials h ''ollamaApi''), body = NoBody\<rparr>]"
  by (simp_all add: getModels_def getModels_Qwen_def getModels_models_def Let_def split: prod.splits sum.splits)

lemma rerank_requests:
  "map url (snd (rerank h s documents query)) = [rerank_baseUrl (getCredentials h ''rerankerOllamaApi'') @ ''/api/generate'']"
  "map url (snd (rerankQwen h s documents query))
     = map (\<lambda>d. rerank_baseUrl (getCredentials h ''ollamaApi'') @ ''/api/chat'') documents"
proof -
  show "map url (snd (rerank h s documents query))
      = [rerank_baseUrl (getCredentials h ''rerankerOllamaApi'') @ ''/api/generate'']"
    by (simp add: rerank_def Let_def)
  have "map (url \<circ> fst \<circ> rerankCall h s u hs query) ps = map (\<lambda>p. u) ps" for u hs ps
    by (simp add: rerankCall_def Let_def)
  then have "map url (snd (rerankQwen h s documents query))
      = map (\<lambda>p. rerank_baseUrl (getCredentials h ''ollamaApi'') @ ''/api/chat'') (enumerate 0 documents)"
    by (simp add: rerankQwen_def Let_def)
  also have "\<dots> = map (\<lambda>d. rerank_baseUrl (getCredentials h ''ollamaApi'') @ ''/api/chat'') documents"
    by (simp add: enumerate_eq_zip map_replicate_const)
  finally show "map url (snd (rerankQwen h s documents query))
     = map (\<lambda>d. rerank_baseUrl (getCredentials h ''ollamaApi'') @ ''/api/chat'') documents" .
qed

text \<open>
  C8.  The lister of the node that asks \<^verbatim>\<open>/models\<close> strips the slashes and has no default
  for the base URL: with the base URL empty or undefined its request goes to the relative
  address \<^verbatim>\<open>/models\<close>.  On the same credentials the listers of the other two nodes ask
  \<^verbatim>\<open>http://localhost:11434/api/tags\<close>, and the rerankers, the one of the same file among
  them, ask \<^verbatim>\<open>http://localhost:11434/api/generate\<close> and
  \<^verbatim>\<open>http://localhost:11434/api/chat\<close>.
\<close>

theorem getModels_models_no_default:
  "map url (snd (getModels_models (lister_host (Some []) json))) = [''/models''] \<and>
   map url (snd (getModels_models (lister_host None json))) = [''/models''] \<and>
   map url (snd (getModels (lister_host (Some []) json))) = [''http://localhost:11434/api/tags''] \<and>
   map url (snd (getModels_Qwen (lister_host (Some []) json))) = [''http://localhost:11434/api/tags''] \<and>
   map url (snd (rerank (example_host (Some []) n f g) s documents query))
     = [''http://localhost:11434/api/generate''] \<and>
   map url (snd (rerankQwen (example_host (Some []) n f g) s documents query))
     = map (\<lambda>d. ''http://localhost:11434/api/chat'') documents"
proof -
  have c: "baseUrl (getCredentials (lister_host (Some []) json) ''ollamaApi'') = Some []"
    "baseUrl (getCredentials (lister_host None json) ''ollamaApi'') = None"
    "baseUrl (getCredentials (example_host (Some []) n f g) ''ollamaApi'') = Some []"
    "baseUrl (getCredentials (example_host (Some []) n f g) ''rerankerOllamaApi'') = Some []"
    by (simp_all add: lister_host_def example_host_def)
  have 1: "map url (snd (getModels_models (lister_host (Some []) json))) = [''/models'']"
    unfolding getModels_requests using c(1) by (simp add: baseUrl_default)
  have 2: "map url (snd (getModels_models (lister_host None json))) = [''/models'']"
    unfolding getModels_requests using c(2) by (simp add: baseUrl_default)
  have 3: "map url (snd (getModels (lister_host (Some []) json))) = [''http://localhost:11434/api/tags'']"
    unfolding getModels_requests using c(1) by (simp add: baseUrl_default)
  have 4: "map url (snd (getModels_Qwen (lister_host (Some []) json))) = [''http://localhost:11434/api/tags'']"
    unfolding getModels_requests using c(1) by (simp add: baseUrl_default)
  have 5: "map url (snd (rerank (example_host (Some []) n f g) s documents query))
     = [''http://localhost:11434/api/generate'']"
    unfolding rerank_requests using c(4) by (simp add: baseUrl_default)
  have 6: "map url (snd (rerankQwen (example_host (Some []) n f g) s documents query))
     = map (\<lambda>d. ''http://localhost:11434/api/chat'') documents"
    unfolding rerank_requests using c(3) by (simp add: baseUrl_default)
  from 1 2 3 4 5 6 show ?thesis by (intro conjI)
qed

theorem getModels_models_no_default_witness:
  "map url (snd (getModels_models (lister_host (Some []) (Some (Obj []))))) = [''/models''] \<and>
   map url (snd (getModels_models (lister_host None (Some (Obj []))))) = [''/models''] \<and>
   map url (snd (getModels (lister_host (Some []) (Some (Obj [])))))
     = [''http://localhost:11434/api/tags''] \<and>
   map url (snd (getModels_Qwen (lister_host (Some []) (Some (Obj [])))))
     = [''http://localhost:11434/api/tags''] \<and>
   map url (snd (rerank (example_host (Some []) 3 (reply_with example_ranking_text) offline)
                   example_store [0, 1] example_query))
     = [''http://localhost:11434/api/generate''] \<and>
   map url (snd (rerankQwen (example_host (Some []) 3 example_grader offline)
                   example_store [0, 1] example_query))
     = [''http://localhost:11434/api/chat'', ''http://localhost:11434/api/chat'']"
  using getModels_models_no_default [of "Some (Obj [])" 3 "reply_with example_ranking_text" offline
      example_store "[0, 1]" example_query]
    getModels_models_no_default [of "Some (Obj [])" 3 example_grader offline
      example_store "[0, 1]" example_query]
  by simp

lemma fst_getModels_Qwen_Inl: "fst (getModels h) = Inl e \<Longrightarrow> fst (getModels_Qwen h) = Inl e"
  by (cases "getModels h") (simp add: getModels_Qwen_def)

text \<open>
  The lister that asks \<^verbatim>\<open>/models\<close> reads \<^verbatim>\<open>result.data ?? []\<close>: for the response
  \<^verbatim>\<open>{}\<close>, which has no \<^verbatim>\<open>data\<close>, it returns the empty list of options and no error.
\<close>

theorem getModels_models_missing_data:
  "fst (getModels_models (lister_host (Some ''http://localhost:11434'') (Some (Obj [])))) = Inr []"
  by (simp add: getModels_models_def lister_host_def example_host_def Let_def bindE_def nullish_def)

text \<open>
  C6.  For a response with status 200 whose body is JSON.  In the two listers that ask
  \<^verbatim>\<open>/api/tags\<close>, when the body is not \<^verbatim>\<open>null\<close> and its \<^verbatim>\<open>models\<close> is missing or is not an
  array, \<^verbatim>\<open>getModels\<close> throws the operational error
  \<^verbatim>\<open>Unexpected response: missing "models" array from Ollama API.\<close>  In the lister that asks
  \<^verbatim>\<open>/models\<close>, when \<^verbatim>\<open>data\<close> is missing or \<^verbatim>\<open>null\<close>, \<^verbatim>\<open>getModels\<close> returns the empty
  list.
\<close>

theorem getModels_missing_array:
  assumes "\<And>req. fetch h req = Fetch_response True status statusText (Some data)"
  shows "(\<forall>models. get_prop data ''models'' = Inr models \<longrightarrow> \<not> isArray models \<longrightarrow>
            fst (getModels h)
              = Inl (NodeOperationError (''Unexpected response: missing '' @ quoted ''models''
                                           @ '' array from Ollama API.'') None) \<and>
            fst (getModels_Qwen h)
              = Inl (NodeOperationError (''Unexpected response: missing '' @ quoted ''models''
                                           @ '' array from Ollama API.'') None)) \<and>
         (\<forall>d. get_prop data ''data'' = Inr d \<longrightarrow> nullish d \<longrightarrow> fst (getModels_models h) = Inr [])"
proof -
  have 1: "\<forall>models. get_prop data ''models'' = Inr models \<longrightarrow> \<not> isArray models \<longrightarrow>
            fst (getModels h)
              = Inl (NodeOperationError (''Unexpected response: missing '' @ quoted ''models''
                                           @ '' array from Ollama API.'') None) \<and>
            fst (getModels_Qwen h)
              = Inl (NodeOperationError (''Unexpected response: missing '' @ quoted ''models''
                                           @ '' array from Ollama API.'') None)"
  proof (intro allI impI)
    fix models assume m: "get_prop data ''models'' = Inr models" "\<not> isArray models"
    then have a: "fst (getModels h)
              = Inl (NodeOperationError (''Unexpected response: missing '' @ quoted ''models''
                                           @ '' array from Ollama API.'') None)"
      by (simp add: getModels_def Let_def assms bindE_def quoted_def)
    from a fst_getModels_Qwen_Inl [OF a]
    show "fst (getModels h)
              = Inl (NodeOperationError (''Unexpected response: missing '' @ quoted ''models''
                                           @ '' array from Ollama API.'') None) \<and>
            fst (getModels_Qwen h)
              = Inl (NodeOperationError (''Unexpected response: missing '' @ quoted ''models''
                                           @ '' array from Ollama API.'') None)" by simp
  qed
  have 2: "\<forall>d. get_prop data ''data'' = Inr d \<longrightarrow> nullish d \<longrightarrow> fst (getModels_models h) = Inr []"
    by (simp add: getModels_models_def Let_def assms bindE_def)
  from 1 2 show ?thesis by (intro conjI)
qed

theorem getModels_missing_array_witness:
  "get_prop (Obj [(''data'', Null)]) ''models'' = Inr Undefined \<and> \<not> isArray Undefined \<and>
   get_prop (Obj [(''data'', Null)]) ''data'' = Inr Null \<and> nullish Null \<and>
   fst (getModels (lister_host None (Some (Obj [(''data'', Null)]))))
     = Inl (NodeOperationError (''Unexpected response: missing '' @ quoted ''models''
                                  @ '' array from Ollama API.'') None) \<and>
   fst (getModels_Qwen (lister_host None (Some (Obj [(''data'', Null)]))))
     = Inl (NodeOperationError (''Unexpected response: missing '' @ quoted ''models''
                                  @ '' array from Ollama API.'') None) \<and>
   fst (getModels_models (lister_host None (Some (Obj [(''data'', Null)])))) = Inr []"
proof -
  let ?h = "lister_host None (Some (Obj [(''data'', Null)]))"
  have f: "\<And>req. fetch ?h req = Fetch_response True 200 ''OK'' (Some (Obj [(''data'', Null)]))"
    by (simp add: lister_host_def example_host_def)
  have a: "get_prop (Obj [(''data'', Null)]) ''models'' = Inr Undefined" by simp
  have b: "\<not> isArray Undefined" by simp
  have c: "get_prop (Obj [(''data'', Null)]) ''data'' = Inr Null" by simp
  have d: "nullish Null" by (simp add: nullish_def)
  note th = getModels_missing_array [of ?h 200 "''OK''" "Obj [(''data'', Null)]", OF f]
  from th a b have e: "fst (getModels ?h)
     = Inl (NodeOperationError (''Unexpected response: missing '' @ quoted ''models''
                                  @ '' array from Ollama API.'') None) \<and>
   fst (getModels_Qwen ?h)
     = Inl (NodeOperationError (''Unexpected response: missing '' @ quoted ''models''
                                  @ '' array from Ollama API.'') None)"
    by blast
  from th c d have g: "fst (getModels_models ?h) = Inr []" by blast
  from a b c d e [THEN conjunct1] e [THEN conjunct2] g show ?thesis by (intro conjI)
qed


text \<open>
  C4.  For an empty document list, and for one that is \<^verbatim>\<open>undefined\<close> or \<^verbatim>\<open>null\<close>,
  \<^verbatim>\<open>compressDocuments\<close> of every node returns the empty list, leaves the store as it is
  and issues no request.
\<close>

theorem compressDocuments_empty:
  "compressDocuments_Qwen h s None query = (Inr [], s, []) \<and>
   compressDocuments_Qwen h s (Some []) query = (Inr [], s, []) \<and>
   compressDocuments h s None query = (Inr [], s, []) \<and>
   compressDocuments h s (Some []) query = (Inr [], s, [])"
  by (simp add: compressDocuments_Qwen_def compressDocuments_def)

end
